theory Spec2Isabelle
  imports Complex_Main "HOL-Library.Word"
begin

unbundle bit_operations_syntax

section \<open>The IQData object of iqdata.py\<close>

text \<open>
  The readers of class \<open>IQData\<close> (src/iqdata.py) are methods that mutate the object
  and return nothing. Each is modelled as a function from the object before the call to
  either the exception the call raises (\<open>Inl\<close>) or the object after the call (\<open>Inr\<close>).
  Python integers are \<open>int\<close>. Floating-point numbers are idealised as \<open>real\<close>
  and complex samples as \<open>complex\<close>: rounding is not modelled, and no statement below
  depends on it. Files are a size and a byte at every position below the size.
\<close>

datatype py_error =
  ZeroDivisionError | KeyError | IndexError | ValueError | OSError | UnicodeDecodeError
  | TypeError | AttributeError | ParseError

type_synonym byte = "8 word"

record binfile =
  fsize :: nat
  content :: "nat \<Rightarrow> byte"

text \<open>\<open>f.seek(pos); f.read(n)\<close> for \<open>0 \<le> pos\<close> and \<open>0 \<le> n\<close>: the bytes from
  \<open>pos\<close> on, at most \<open>n\<close> of them, none past the end of the file.\<close>

definition read_at :: "binfile \<Rightarrow> nat \<Rightarrow> nat \<Rightarrow> byte list" where
  "read_at f pos n = map (content f) [pos ..< min (pos + n) (fsize f)]"

datatype date_value = DateText string | LocalTimeOfEpoch real

datatype header_value = HeaderLines "string list" | HeaderBytes "byte list"

text \<open>The fields \<open>__init__\<close> sets, but for the three file names, which no reader
  changes. \<open>span\<close> is \<open>span_iq\<close> here.\<close>

record iqdata =
  acq_bw :: real
  center :: real
  date_time :: date_value
  number_samples :: int
  rbw :: real
  rf_att :: real
  fs :: real
  span_iq :: real
  scale :: real
  header :: "header_value option"
  data_array :: "complex list option"
  lframes :: int
  nframes_tot :: int
  nframes :: int
  tdms_nSamplesPerRecord :: int
  tdms_nRecordsPerFile :: int
  tdms_first_rec_size :: int
  tdms_other_rec_size :: int
  tcap_scalers :: "byte list option"
  tcap_pio :: "byte list option"

text \<open>The object \<open>__init__\<close> builds.\<close>

definition init_iqdata :: iqdata where
  "init_iqdata =
     \<lparr>acq_bw = 0, center = 0, date_time = DateText [], number_samples = 0, rbw = 0,
      rf_att = 0, fs = 0, span_iq = 0, scale = 0, header = None, data_array = None,
      lframes = 0, nframes_tot = 0, nframes = 0, tdms_nSamplesPerRecord = 0,
      tdms_nRecordsPerFile = 0, tdms_first_rec_size = 0, tdms_other_rec_size = 0,
      tcap_scalers = None, tcap_pio = None\<rparr>"

subsection \<open>Python and numpy primitives\<close>

text \<open>\<open>int(a / b)\<close> for integers with \<open>b \<noteq> 0\<close> and both magnitudes below \<open>2^53\<close>:
  the quotient, truncated towards zero. The code divides in floating point; below
  \<open>2^53\<close> both operands are floats, the quotient is rounded correctly and never reaches
  the next integer, so the truncation is exact. From \<open>2^53\<close> on the float quotient may
  be off, and from the range of the floats on the division raises: the definition says
  nothing of the code there, and every statement below whose truth hangs on a quotient
  bounds the operands.\<close>

definition int_truediv :: "int \<Rightarrow> int \<Rightarrow> int" where
  "int_truediv a b = sgn a * sgn b * (\<bar>a\<bar> div \<bar>b\<bar>)"

text \<open>The index a slice bound stands for in a sequence of length \<open>n\<close>: a negative
  bound counts from the end, and the result is clipped to \<open>0..n\<close>.\<close>

definition slice_index :: "nat \<Rightarrow> int \<Rightarrow> nat" where
  "slice_index n i = (if i < 0 then nat (max (int n + i) 0) else min (nat i) n)"

text \<open>\<open>xs[a:b]\<close> and \<open>xs[a:]\<close>.\<close>

definition py_slice :: "'a list \<Rightarrow> int \<Rightarrow> int \<Rightarrow> 'a list" where
  "py_slice xs a b =
     (let lo = slice_index (length xs) a; hi = slice_index (length xs) b
      in take (hi - lo) (drop lo xs))"

definition py_slice_from :: "'a list \<Rightarrow> int \<Rightarrow> 'a list" where
  "py_slice_from xs a = drop (slice_index (length xs) a) xs"

text \<open>Assigning the array \<open>src\<close> to a strided view of \<open>n\<close> elements: the lengths
  agree, or \<open>src\<close> has one element and is broadcast; otherwise numpy raises.\<close>

definition broadcast_to :: "nat \<Rightarrow> 'a list \<Rightarrow> py_error + 'a list" where
  "broadcast_to n src =
     (if length src = n then Inr src
      else if length src = 1 then Inr (replicate n (hd src))
      else Inl ValueError)"

text \<open>Sequencing of calls that may raise.\<close>

definition and_then :: "py_error + 'a \<Rightarrow> ('a \<Rightarrow> py_error + 'b) \<Rightarrow> py_error + 'b" where
  "and_then r k = (case r of Inl e \<Rightarrow> Inl e | Inr v \<Rightarrow> k v)"

text \<open>\<open>f.seek(pos); f.read(n)\<close> on a file opened in binary mode, for any \<open>n\<close>:
  \<open>-1\<close> reads to the end of the file, a smaller \<open>n\<close> raises.\<close>

definition py_read :: "binfile \<Rightarrow> nat \<Rightarrow> int \<Rightarrow> py_error + byte list" where
  "py_read f pos n =
     (if n < -1 then Inl ValueError
      else if n = -1 then Inr (read_at f pos (fsize f - pos))
      else Inr (read_at f pos (nat n)))"

text \<open>\<open>s.split(c)\<close> for a single character \<open>c\<close>.\<close>

fun split_on :: "char \<Rightarrow> string \<Rightarrow> string list" where
  "split_on c [] = [[]]"
| "split_on c (x # xs) =
     (if x = c then [] # split_on c xs
      else case split_on c xs of [] \<Rightarrow> [[x]] | l # ls \<Rightarrow> (x # l) # ls)"

section \<open>The TDMS reader\<close>

text \<open>The local variables of \<open>read_tdms\<close> that address the window (lines 143 to 152),
  for \<open>tdms_nSamplesPerRecord = spr\<close>.\<close>

record tdms_window =
  total_n_bytes :: int
  start_n_bytes :: int
  start_record :: int
  starting_sample_within_start_record :: int
  n_records :: int

definition tdms_addressing :: "int \<Rightarrow> int \<Rightarrow> int \<Rightarrow> int \<Rightarrow> tdms_window" where
  "tdms_addressing spr nfr lfr sfr =
     (let total = nfr * lfr;
          start = (sfr - 1) * lfr;
          srec = int_truediv start spr + 1;
          off = start mod spr;
          nrec = int_truediv (off + total) spr + 1
      in \<lparr>total_n_bytes = total, start_n_bytes = start, start_record = srec,
          starting_sample_within_start_record = off, n_records = nrec\<rparr>)"

text \<open>What the segment loop of \<open>read_tdms\<close> leaves in \<open>raw_data\<close>: the 16-bit
  samples under the keys of the I and the Q channel, and the values under the key of the
  record header's gain; \<open>None\<close> where a key is absent. The loop itself runs
  \<open>pyTDMS.readSegment\<close>, a library outside this repository; its result is a parameter
  of the model, given the start record and the offset the loop stops at. The loop starts
  at offset 0 and runs while the offset is below the stop offset: with a stop offset of 0
  or less it never runs, and \<open>raw_data\<close> stays empty.\<close>

record tdms_raw =
  raw_I :: "int list option"
  raw_Q :: "int list option"
  raw_gain :: "real list option"

definition lookup_key :: "'a option \<Rightarrow> py_error + 'a" where
  "lookup_key v = (case v of None \<Rightarrow> Inl KeyError | Some x \<Rightarrow> Inr x)"

text \<open>Lines 186 to 204: trimming, slicing, interleaving and scaling.\<close>

definition tdms_samples ::
  "int \<Rightarrow> tdms_window \<Rightarrow> tdms_raw \<Rightarrow> py_error + (complex list \<times> real)" where
  "tdms_samples spr w raw =
     (case lookup_key (raw_I raw) of Inl e \<Rightarrow> Inl e | Inr ii0 \<Rightarrow>
     (case lookup_key (raw_Q raw) of Inl e \<Rightarrow> Inl e | Inr qq0 \<Rightarrow>
      let ii1 = (if start_record w > 1 then py_slice_from ii0 spr else ii0);
          qq1 = (if start_record w > 1 then py_slice_from qq0 spr else qq0);
          off = starting_sample_within_start_record w;
          ii = py_slice ii1 off (off + total_n_bytes w);
          qq = py_slice qq1 off (off + total_n_bytes w)
      in if total_n_bytes w < 0 then Inl ValueError
         else
          (case broadcast_to (nat (total_n_bytes w)) ii of Inl e \<Rightarrow> Inl e | Inr iv \<Rightarrow>
          (case broadcast_to (nat (total_n_bytes w)) qq of Inl e \<Rightarrow> Inl e | Inr qv \<Rightarrow>
          (case lookup_key (raw_gain raw) of Inl e \<Rightarrow> Inl e | Inr gain \<Rightarrow>
           if gain = [] then Inl IndexError
           else Inr (map (\<lambda>(i, q). Complex (of_int i) (of_int q) * of_real (hd gain))
                       (zip iv qv), hd gain))))))"

definition read_tdms ::
  "(int \<Rightarrow> int \<Rightarrow> tdms_raw) \<Rightarrow> iqdata \<Rightarrow> int \<Rightarrow> int \<Rightarrow> int \<Rightarrow> py_error + iqdata" where
  "read_tdms segments s nfr lfr sfr =
     (let s1 = s\<lparr>lframes := lfr, nframes := nfr\<rparr>;
          spr = tdms_nSamplesPerRecord s1
      in if spr = 0 then Inl ZeroDivisionError
         else
           let w = tdms_addressing spr nfr lfr sfr
           in if start_record w + n_records w > tdms_nRecordsPerFile s1 then Inr s1
              else
                let absolute_size = tdms_first_rec_size s1
                      + (start_record w + n_records w - 2) * tdms_other_rec_size s1;
                    raw_data = (if absolute_size \<le> 0
                                then \<lparr>raw_I = None, raw_Q = None, raw_gain = None\<rparr>
                                else segments (start_record w) absolute_size)
                in case tdms_samples spr w raw_data of
                     Inl e \<Rightarrow> Inl e
                   | Inr (d, g) \<Rightarrow> Inr (s1\<lparr>data_array := Some d, scale := g\<rparr>))"

section \<open>The TCAP reader\<close>

subsection \<open>The timestamp register\<close>

text \<open>What \<open>parse_tcap_tfp\<close> decodes. The source formats \<open>ts_epoch\<close> as local
  calendar time with \<open>datetime.fromtimestamp\<close>, which depends on the time zone of the
  host; the model returns the decoded numbers.\<close>

record tcap_time =
  days :: int
  hours :: int
  minutes :: int
  seconds :: real
  ts_epoch :: real

definition parse_tcap_tfp :: "byte list \<Rightarrow> py_error + tcap_time" where
  "parse_tcap_tfp ba =
     (if length ba < 12 then Inl IndexError
      else
        let tfp = map uint ba;
            dh = drop_bit 0 (tfp ! 3) AND 0x17;
            dt = drop_bit 4 (tfp ! 4) AND 0x17;
            du = drop_bit 0 (tfp ! 4) AND 0x17;
            ht = drop_bit 4 (tfp ! 5) AND 0x17;
            hu = drop_bit 0 (tfp ! 5) AND 0x17;
            mt = drop_bit 4 (tfp ! 6) AND 0x17;
            mu = drop_bit 0 (tfp ! 6) AND 0x17;
            st = drop_bit 4 (tfp ! 7) AND 0x17;
            su = drop_bit 0 (tfp ! 7) AND 0x17;
            sem1 = drop_bit 4 (tfp ! 8) AND 0x17;
            sem2 = drop_bit 0 (tfp ! 8) AND 0x17;
            sem3 = drop_bit 4 (tfp ! 9) AND 0x17;
            sem4 = drop_bit 0 (tfp ! 9) AND 0x17;
            sem5 = drop_bit 4 (tfp ! 10) AND 0x17;
            sem6 = drop_bit 0 (tfp ! 10) AND 0x17;
            sem7 = drop_bit 4 (tfp ! 11) AND 0x17;
            d = dh * 100 + dt * 10 + du;
            h = ht * 10 + hu;
            m = mt * 10 + mu;
            sec = of_int st * 10 + of_int su + of_int sem1 / 10 + of_int sem2 / 10 ^ 2
                  + of_int sem3 / 10 ^ 3 + of_int sem4 / 10 ^ 4 + of_int sem5 / 10 ^ 5
                  + of_int sem6 / 10 ^ 6 + of_int sem7 / 10 ^ 7
        in Inr \<lparr>days = d, hours = h, minutes = m, seconds = sec,
                 ts_epoch = sec + 60 * (of_int m + 60 * (of_int h + 24 * of_int d))\<rparr>)"

subsection \<open>The block grid\<close>

definition BLOCK_HEADER_SIZE :: nat where
  "BLOCK_HEADER_SIZE = 88"

definition BLOCK_DATA_SIZE :: nat where
  "BLOCK_DATA_SIZE = 2 ^ 17"

definition BLOCK_SIZE :: nat where
  "BLOCK_SIZE = BLOCK_HEADER_SIZE + BLOCK_DATA_SIZE"

text \<open>The copy loop of \<open>read_tcap\<close> (lines 521 to 530): \<open>n\<close> iterations are left,
  the file pointer is at \<open>pos\<close>, \<open>ba\<close> holds the bytes copied so far. At the end of
  the file \<open>f.read(1)\<close> returns nothing and the pointer stays.\<close>

fun tcap_copy :: "binfile \<Rightarrow> nat \<Rightarrow> nat \<Rightarrow> byte list \<Rightarrow> byte list" where
  "tcap_copy f 0 pos ba = ba"
| "tcap_copy f (Suc n) pos ba =
     (let pos1 = (if pos mod 131160 = 0 then pos + 88 else pos)
      in if pos1 < fsize f then tcap_copy f n (pos1 + 1) (ba @ [content f pos1])
         else tcap_copy f n pos1 ba)"

text \<open>A big-endian 16-bit signed integer.\<close>

definition be_i16 :: "byte \<Rightarrow> byte \<Rightarrow> int" where
  "be_i16 hi lo = (let v = uint hi * 256 + uint lo in if v < 32768 then v else v - 65536)"

text \<open>\<open>np.frombuffer(ba, '>i2')\<close>, widened, scaled and viewed as complex numbers: four
  bytes a sample, I before Q.\<close>

fun tcap_decode :: "real \<Rightarrow> byte list \<Rightarrow> complex list" where
  "tcap_decode sc (a # b # c # d # r) =
     Complex (of_int (be_i16 a b) * sc) (of_int (be_i16 c d) * sc) # tcap_decode sc r"
| "tcap_decode sc r = []"

definition read_tcap :: "binfile \<Rightarrow> iqdata \<Rightarrow> int \<Rightarrow> int \<Rightarrow> int \<Rightarrow> py_error + iqdata" where
  "read_tcap f s nfr lfr sfr =
     (let s1 = s\<lparr>lframes := lfr, nframes := nfr\<rparr>
      in if fsize f \<noteq> 15625 * BLOCK_SIZE then Inr s1
         else
           case parse_tcap_tfp (read_at f 0 12) of Inl e \<Rightarrow> Inl e | Inr t \<Rightarrow>
           if nfr = 0 then Inl ZeroDivisionError
           else
             let s2 = s1\<lparr>date_time := LocalTimeOfEpoch (ts_epoch t),
                         tcap_pio := Some (read_at f 12 12),
                         tcap_scalers := Some (read_at f 24 64),
                         fs := 312500, center := 160000, scale := 1 / 16,
                         nframes_tot := int_truediv (15625 * 32768) nfr,
                         number_samples := 15625 * 32768, span_iq := 312500\<rparr>;
                 total_n_bytes = 4 * nfr * lfr;
                 start_n_bytes = 4 * (sfr - 1) * lfr
             in if int BLOCK_HEADER_SIZE + start_n_bytes < 0 then Inl OSError
                else
                  let ba = tcap_copy f (nat total_n_bytes)
                             (nat (int BLOCK_HEADER_SIZE + start_n_bytes)) []
                  in if length ba mod 4 \<noteq> 0 then Inl ValueError
                     else Inr (s2\<lparr>data_array := Some (tcap_decode (scale s2) ba)\<rparr>))"

text \<open>The file position of the payload byte at offset \<open>k\<close>: the payload is what is
  left of the file when the header at the start of every block is taken out.\<close>

definition payload_pos :: "nat \<Rightarrow> nat" where
  "payload_pos k = (k div BLOCK_DATA_SIZE) * BLOCK_SIZE + BLOCK_HEADER_SIZE + k mod BLOCK_DATA_SIZE"

definition payload_range :: "binfile \<Rightarrow> nat \<Rightarrow> nat \<Rightarrow> byte list" where
  "payload_range f k n = map (\<lambda>j. content f (payload_pos j)) [k ..< k + n]"

section \<open>The TIQ reader\<close>

subsection \<open>The XML header\<close>

text \<open>An element of the tree \<open>xml.etree\<close> builds: its tag, its attributes, the text
  before its first child (\<open>None\<close> where there is none) and its children.\<close>

datatype xml_elem =
  Elem (elem_tag: string) (elem_attrib: "(string \<times> string) list")
       (elem_text: "string option") (elem_children: "xml_elem list")

text \<open>\<open>root.iter()\<close>: the element and its descendants, in document order.\<close>

fun iter_elems :: "xml_elem \<Rightarrow> xml_elem list" where
  "iter_elems (Elem t a x cs) = Elem t a x cs # concat (map iter_elems cs)"

text \<open>\<open>root.iter(tag)\<close>.\<close>

definition iter_tag :: "string \<Rightarrow> xml_elem \<Rightarrow> xml_elem list" where
  "iter_tag tg tree = filter (\<lambda>e. elem_tag e = tg) (iter_elems tree)"

text \<open>\<open>for elem in elems: v = conv(elem.text)\<close> for a builtin conversion \<open>conv\<close>
  (\<open>float\<close> or \<open>int\<close>, \<open>None\<close> where it raises \<open>ValueError\<close>); a missing text
  raises \<open>TypeError\<close>. Without an element the value is left as it is.\<close>

fun assign_text :: "(string \<Rightarrow> 'a option) \<Rightarrow> xml_elem list \<Rightarrow> 'a \<Rightarrow> py_error + 'a" where
  "assign_text conv [] v = Inr v"
| "assign_text conv (e # es) v =
     (case elem_text e of None \<Rightarrow> Inl TypeError
      | Some t \<Rightarrow> (case conv t of None \<Rightarrow> Inl ValueError
                   | Some x \<Rightarrow> assign_text conv es x))"

text \<open>\<open>for elem in elems: v = str(elem.text)\<close>.\<close>

fun assign_str :: "xml_elem list \<Rightarrow> string \<Rightarrow> string" where
  "assign_str [] v = v"
| "assign_str (e # es) v =
     assign_str es (case elem_text e of None \<Rightarrow> ''None'' | Some t \<Rightarrow> t)"

text \<open>The loops of lines 430 to 432 and 437 to 439 over the \<open>NumericParameter\<close>
  elements: an element whose \<open>name\<close> attribute is \<open>nm\<close> must have a \<open>pid\<close>
  attribute; where that is \<open>pid\<close>, the text of its first \<open>Value\<close> child is converted.\<close>

fun assign_param ::
  "(string \<Rightarrow> real option) \<Rightarrow> string \<Rightarrow> string \<Rightarrow> xml_elem list \<Rightarrow> real \<Rightarrow> py_error + real" where
  "assign_param conv nm pid [] v = Inr v"
| "assign_param conv nm pid (e # es) v =
     (if map_of (elem_attrib e) ''name'' = Some nm
      then (case map_of (elem_attrib e) ''pid'' of None \<Rightarrow> Inl KeyError
            | Some p \<Rightarrow>
                if p = pid
                then (case find (\<lambda>c. elem_tag c = ''Value'') (elem_children e) of
                        None \<Rightarrow> Inl AttributeError
                      | Some c \<Rightarrow>
                          (case elem_text c of None \<Rightarrow> Inl TypeError
                           | Some t \<Rightarrow> (case conv t of None \<Rightarrow> Inl ValueError
                                        | Some x \<Rightarrow> assign_param conv nm pid es x)))
                else assign_param conv nm pid es v)
      else assign_param conv nm pid es v)"

text \<open>A tag in the namespace of the instrument's files.\<close>

definition tek :: "string \<Rightarrow> string" where
  "tek name = ''{http://www.tektronix.com}'' @ name"

text \<open>Lines 413 to 441 of \<open>read_tiq\<close>: the first line of the file gives \<open>data_offset\<close>,
  the first \<open>data_offset\<close> bytes are parsed as XML, and the loops over the tree set the
  fields. Three kinds of calls are parameters of the model: \<open>readline\<close> is
  \<open>open(filename).readline()\<close>, the first line as the text layer of the host decodes
  it; \<open>fromstring\<close> is \<open>et.fromstring\<close>; \<open>py_int\<close> and \<open>py_float\<close> are \<open>int\<close>
  and \<open>float\<close> on strings. The result is \<open>data_offset\<close>, the header bytes and the
  object with the fields set.\<close>

definition tiq_header ::
  "(binfile \<Rightarrow> py_error + string) \<Rightarrow> (string \<Rightarrow> int option) \<Rightarrow> (string \<Rightarrow> real option)
     \<Rightarrow> (byte list \<Rightarrow> py_error + xml_elem) \<Rightarrow> binfile \<Rightarrow> iqdata
     \<Rightarrow> py_error + (int \<times> byte list \<times> iqdata)" where
  "tiq_header readline py_int py_float fromstring f s1 =
     and_then (readline f) (\<lambda>line.
     let parts = split_on (CHR 0x22) line
     in if length parts < 2 then Inl IndexError
        else
          (case py_int (parts ! 1) of None \<Rightarrow> Inl ValueError | Some data_offset \<Rightarrow>
          and_then (py_read f 0 data_offset) (\<lambda>ba.
          and_then (fromstring ba) (\<lambda>tree.
          and_then (assign_text py_float (iter_tag (tek ''AcquisitionBandwidth'') tree)
                      (acq_bw s1)) (\<lambda>acq_bw_v.
          and_then (assign_text py_float (iter_tag (tek ''Frequency'') tree)
                      (center s1)) (\<lambda>center_v.
          and_then (assign_text py_int (iter_tag (tek ''NumberSamples'') tree)
                      (number_samples s1)) (\<lambda>number_samples_v.
          and_then (assign_param py_float ''Resolution Bandwidth'' ''rbw''
                      (iter_tag ''NumericParameter'' tree) (rbw s1)) (\<lambda>rbw_v.
          and_then (assign_text py_float (iter_tag (tek ''RFAttenuation'') tree)
                      (rf_att s1)) (\<lambda>rf_att_v.
          and_then (assign_text py_float (iter_tag (tek ''SamplingFrequency'') tree)
                      (fs s1)) (\<lambda>fs_v.
          and_then (assign_param py_float ''Span'' ''globalrange''
                      (iter_tag ''NumericParameter'' tree) (span_iq s1)) (\<lambda>span_v.
          and_then (assign_text py_float (iter_tag (tek ''Scaling'') tree)
                      (scale s1)) (\<lambda>scale_v.
          Inr (data_offset, ba,
               s1\<lparr>acq_bw := acq_bw_v, center := center_v,
                   date_time := (case iter_tag (tek ''DateTime'') tree of
                                   [] \<Rightarrow> date_time s1
                                 | e # es \<Rightarrow> DateText (assign_str (e # es) [])),
                   number_samples := number_samples_v, rbw := rbw_v, rf_att := rf_att_v,
                   fs := fs_v, span_iq := span_v, scale := scale_v\<rparr>)))))))))))))"

subsection \<open>The payload\<close>

text \<open>A little-endian 32-bit signed integer.\<close>

definition le_i32 :: "byte \<Rightarrow> byte \<Rightarrow> byte \<Rightarrow> byte \<Rightarrow> int" where
  "le_i32 b0 b1 b2 b3 =
     (let v = uint b0 + 256 * uint b1 + 65536 * uint b2 + 16777216 * uint b3
      in if v < 2147483648 then v else v - 4294967296)"

text \<open>\<open>np.fromstring(ba, dtype='<i4')\<close>, scaled and viewed as \<open>c16\<close>: eight bytes a
  sample, I before Q.\<close>

fun tiq_decode :: "real \<Rightarrow> byte list \<Rightarrow> complex list" where
  "tiq_decode sc (a0 # a1 # a2 # a3 # b0 # b1 # b2 # b3 # r) =
     Complex (of_int (le_i32 a0 a1 a2 a3) * sc) (of_int (le_i32 b0 b1 b2 b3) * sc)
       # tiq_decode sc r"
| "tiq_decode sc r = []"

text \<open>\<open>read_tiq\<close>. The logging calls of lines 449 and 450 divide by \<open>self.fs\<close> and
  by \<open>lframes\<close>.\<close>

definition read_tiq ::
  "(binfile \<Rightarrow> py_error + string) \<Rightarrow> (string \<Rightarrow> int option) \<Rightarrow> (string \<Rightarrow> real option)
     \<Rightarrow> (byte list \<Rightarrow> py_error + xml_elem) \<Rightarrow> binfile \<Rightarrow> iqdata
     \<Rightarrow> int \<Rightarrow> int \<Rightarrow> int \<Rightarrow> py_error + iqdata" where
  "read_tiq readline py_int py_float fromstring f s nfr lfr sfr =
     (let s1 = s\<lparr>lframes := lfr, nframes := nfr\<rparr>
      in and_then (tiq_header readline py_int py_float fromstring f s1)
           (\<lambda>(data_offset, hdr, s2).
              if fs s2 = 0 \<or> lfr = 0 then Inl ZeroDivisionError
              else
                let s3 = s2\<lparr>nframes_tot := int_truediv (number_samples s2) lfr,
                            header := Some (HeaderBytes hdr)\<rparr>;
                    total_n_bytes = 8 * nfr * lfr;
                    start_n_bytes = 8 * (sfr - 1) * lfr
                in if data_offset + start_n_bytes < 0 then Inl OSError
                   else
                     and_then (py_read f (nat (data_offset + start_n_bytes)) total_n_bytes)
                       (\<lambda>ba. if length ba mod 8 \<noteq> 0 then Inl ValueError
                             else Inr (s3\<lparr>data_array := Some (tiq_decode (scale s3) ba)\<rparr>))))"

section \<open>The IQT reader\<close>

subsection \<open>The text header\<close>

text \<open>\<open>line.partition("=")[::2]\<close>: what stands before the first \<open>=\<close> and what
  stands after it.\<close>

definition partition_eq :: "string \<Rightarrow> string \<times> string" where
  "partition_eq line =
     (takeWhile (\<lambda>c. c \<noteq> CHR ''='') line, drop 1 (dropWhile (\<lambda>c. c \<noteq> CHR ''='') line))"

text \<open>The ASCII characters \<open>str.strip()\<close> removes.\<close>

definition is_space :: "char \<Rightarrow> bool" where
  "is_space c = (let n = (of_char c :: nat) in (9 \<le> n \<and> n \<le> 13) \<or> (28 \<le> n \<and> n \<le> 32))"

definition strip :: "string \<Rightarrow> string" where
  "strip s = rev (dropWhile is_space (rev (dropWhile is_space s)))"

text \<open>\<open>s.replace(c, r)\<close> for a single character \<open>c\<close>.\<close>

definition replace_char :: "char \<Rightarrow> string \<Rightarrow> string \<Rightarrow> string" where
  "replace_char c r s = concat (map (\<lambda>x. if x = c then r else [x]) s)"

text \<open>\<open>p in s\<close> for strings.\<close>

fun occurs_in :: "string \<Rightarrow> string \<Rightarrow> bool" where
  "occurs_in p [] = (p = [])"
| "occurs_in p (x # xs) = (take (length p) (x # xs) = p \<or> occurs_in p xs)"

definition header_var :: "string \<Rightarrow> string" where
  "header_var v0 =
     (let v1 = strip v0;
          v2 = replace_char (CHR ''k'') ''e3'' v1;
          v3 = replace_char (CHR ''m'') ''e-3'' v2;
          v4 = replace_char (CHR ''u'') ''e-6'' v3
      in if \<not> occurs_in ''PM'' v4 \<and> \<not> occurs_in ''AM'' v4
         then replace_char (CHR ''M'') ''e6'' v4 else v4)"

definition text_header_parser :: "string list \<Rightarrow> (string \<rightharpoonup> string)" where
  "text_header_parser str =
     fold (\<lambda>line dic. case partition_eq line of (name, var) \<Rightarrow>
             dic(strip name \<mapsto> header_var var)) str Map.empty"

text \<open>\<open>s.split('\n')\<close>.\<close>

fun split_lines :: "string \<Rightarrow> string list" where
  "split_lines [] = [[]]"
| "split_lines (c # cs) =
     (if c = CHR 0x0A then [] # split_lines cs
      else case split_lines cs of [] \<Rightarrow> [[c]] | l # ls \<Rightarrow> (c # l) # ls)"

text \<open>\<open>ba.decode('utf8')\<close> on ASCII bytes. A byte of 128 or more is reported as the
  decoding error: multi-byte characters are outside the model.\<close>

definition decode_utf8 :: "byte list \<Rightarrow> py_error + string" where
  "decode_utf8 ba =
     (if list_all (\<lambda>b. b < 128) ba then Inr (map (\<lambda>b. char_of (unat b)) ba)
      else Inl UnicodeDecodeError)"

text \<open>\<open>conv(header_dic[key])\<close> for a builtin conversion \<open>conv\<close> (\<open>int\<close> or \<open>float\<close>),
  which is \<open>None\<close> where the builtin raises.\<close>

definition header_field :: "(string \<Rightarrow> 'a option) \<Rightarrow> (string \<rightharpoonup> string) \<Rightarrow> string \<Rightarrow> py_error + 'a" where
  "header_field conv dic key =
     (case dic key of None \<Rightarrow> Inl KeyError
      | Some v \<Rightarrow> (case conv v of None \<Rightarrow> Inl ValueError | Some x \<Rightarrow> Inr x))"

text \<open>Lines 325 to 337: the two length prefixes and the header lines; the result is the
  header's lines and \<open>data_offset\<close>.\<close>

definition iqt_text_header ::
  "(string \<Rightarrow> int option) \<Rightarrow> binfile \<Rightarrow> py_error + (string list \<times> int)" where
  "iqt_text_header py_int f =
     and_then (decode_utf8 (read_at f 0 1)) (\<lambda>t1.
     case py_int t1 of None \<Rightarrow> Inl ValueError | Some header_size_size \<Rightarrow>
     and_then (py_read f 1 header_size_size) (\<lambda>ba2.
     and_then (decode_utf8 ba2) (\<lambda>t2.
     case py_int t2 of None \<Rightarrow> Inl ValueError | Some header_size \<Rightarrow>
     and_then (py_read f (1 + length ba2) header_size) (\<lambda>ba3.
     and_then (decode_utf8 ba3) (\<lambda>t3.
     Inr (split_lines t3, 1 + header_size_size + header_size))))))"

subsection \<open>The frames\<close>

text \<open>A little-endian 16-bit signed integer.\<close>

definition le_i16 :: "byte \<Rightarrow> byte \<Rightarrow> int" where
  "le_i16 lo hi = (let v = uint lo + 256 * uint hi in if v < 32768 then v else v - 65536)"

text \<open>The size of \<open>frame_type\<close>: a header of ten 16-bit fields and one 32-bit field,
  then \<open>2 * 1024\<close> 16-bit samples.\<close>

definition frame_itemsize :: nat where
  "frame_itemsize = 10 * 2 + 4 + 2 * 1024 * 2"

text \<open>The 1024 complex samples of the frame that starts at \<open>ba ! base\<close> (lines 380 to
  383): the data block holds Q before I.\<close>

definition iqt_frame :: "byte list \<Rightarrow> nat \<Rightarrow> complex list" where
  "iqt_frame ba base =
     map (\<lambda>k. Complex (of_int (le_i16 (ba ! (base + 24 + 4 * k + 2)) (ba ! (base + 24 + 4 * k + 3))))
                      (of_int (le_i16 (ba ! (base + 24 + 4 * k)) (ba ! (base + 24 + 4 * k + 1)))))
       [0 ..< 1024]"

text \<open>Lines 370 to 386: an array of \<open>1024 * nframes\<close> zeros, overwritten by the frames
  that were read, then scaled.\<close>

definition iqt_data :: "real \<Rightarrow> nat \<Rightarrow> byte list \<Rightarrow> complex list" where
  "iqt_data sc nfr ba =
     (let frames = concat (map (\<lambda>i. iqt_frame ba (i * frame_itemsize))
                             [0 ..< length ba div frame_itemsize])
      in map (\<lambda>z. z * of_real sc) (frames @ replicate (1024 * nfr - length frames) 0))"

definition read_iqt ::
  "(string \<Rightarrow> int option) \<Rightarrow> (string \<Rightarrow> real option) \<Rightarrow> binfile \<Rightarrow> iqdata
     \<Rightarrow> int \<Rightarrow> int \<Rightarrow> int \<Rightarrow> py_error + iqdata" where
  "read_iqt py_int py_float f s nfr lfr sfr =
     (let s1 = s\<lparr>lframes := lfr, nframes := nfr\<rparr>
      in and_then (iqt_text_header py_int f) (\<lambda>(hd_lines, data_offset).
         let header_dic = text_header_parser hd_lines
         in and_then (header_field py_int header_dic ''FFTPoints'') (\<lambda>fft_points.
            and_then (header_field py_float header_dic ''MaxInputLevel'') (\<lambda>max_input_level.
            and_then (header_field py_float header_dic ''LevelOffset'') (\<lambda>level_offset.
            and_then (header_field py_float header_dic ''FrameLength'') (\<lambda>frame_length.
            and_then (header_field py_float header_dic ''GainOffset'') (\<lambda>gain_offset.
            and_then (header_field py_float header_dic ''CenterFrequency'') (\<lambda>center_v.
            and_then (header_field py_float header_dic ''Span'') (\<lambda>span_v.
            and_then (header_field py_int header_dic ''ValidFrames'') (\<lambda>valid_frames.
            and_then (lookup_key (header_dic ''DateTime'')) (\<lambda>date_v.
            if frame_length = 0 then Inl ZeroDivisionError
            else
              let s2 = s1\<lparr>header := Some (HeaderLines hd_lines),
                          center := center_v, span_iq := span_v,
                          nframes_tot := valid_frames, date_time := DateText date_v,
                          number_samples := valid_frames * fft_points,
                          fs := of_int fft_points / frame_length,
                          scale := sqrt (10 powr ((gain_offset + max_input_level + level_offset) / 10)
                                         / 20 * 2)\<rparr>;
                  total_n_bytes = nfr * int frame_itemsize;
                  start_n_bytes = (sfr - 1) * int frame_itemsize
              in if nfr < 0 then Inl ValueError
                 else if data_offset + start_n_bytes < 0 then Inl OSError
                 else
                   and_then (py_read f (nat (data_offset + start_n_bytes)) total_n_bytes)
                     (\<lambda>ba. if length ba mod frame_itemsize \<noteq> 0 then Inl ValueError
                           else Inr (s2\<lparr>data_array :=
                                       Some (iqt_data (scale s2) (nat nfr) ba)\<rparr>)))))))))))))"

section \<open>An example IQT file\<close>

text \<open>A file with a header of 122 bytes, which declares one valid frame of 1024 points,
  and one frame of zeros. The two conversions stand for \<open>int\<close> and \<open>float\<close> on the
  strings of this header.\<close>

definition example_iqt_text :: string where
  "example_iqt_text =
     ''3122FFTPoints=1024'' @ [CHR 0x0A] @ ''MaxInputLevel=0'' @ [CHR 0x0A]
     @ ''LevelOffset=0'' @ [CHR 0x0A] @ ''FrameLength=1'' @ [CHR 0x0A]
     @ ''GainOffset=10'' @ [CHR 0x0A] @ ''CenterFrequency=0'' @ [CHR 0x0A]
     @ ''Span=0'' @ [CHR 0x0A] @ ''ValidFrames=1'' @ [CHR 0x0A] @ ''DateTime=x''"

definition example_iqt_file :: binfile where
  "example_iqt_file =
     \<lparr>fsize = 126 + 4120,
      content = (\<lambda>p. if p < 126 then of_nat (of_char (example_iqt_text ! p)) else 0)\<rparr>"

definition example_int :: "string \<Rightarrow> int option" where
  "example_int v =
     (if v = ''3'' then Some 3 else if v = ''122'' then Some 122
      else if v = ''1024'' then Some 1024 else if v = ''1'' then Some 1 else None)"

definition example_float :: "string \<Rightarrow> real option" where
  "example_float v =
     (if v = ''0'' then Some 0 else if v = ''1'' then Some 1
      else if v = ''10'' then Some 10 else None)"

definition example_iqt_lines :: "string list" where
  "example_iqt_lines =
     [''FFTPoints=1024'', ''MaxInputLevel=0'', ''LevelOffset=0'', ''FrameLength=1'',
      ''GainOffset=10'', ''CenterFrequency=0'', ''Span=0'', ''ValidFrames=1'', ''DateTime=x'']"

section \<open>An example TIQ file\<close>

text \<open>A file with an XML header of 160 bytes, which declares the sampling frequency, two
  samples and the scaling, and a payload of 16 zero bytes. \<open>example_tiq_line\<close> is its
  first line and \<open>example_tiq_tree\<close> is the tree of its header; the conversion stands
  for \<open>int\<close> on the strings of this header.\<close>

definition example_tiq_line :: string where
  "example_tiq_line =
     ''<DataFile offset='' @ [CHR 0x22] @ ''160'' @ [CHR 0x22] @ '' xmlns='' @ [CHR 0x22]
     @ ''http://www.tektronix.com'' @ [CHR 0x22] @ ''>'' @ [CHR 0x0A]"

definition example_tiq_text :: string where
  "example_tiq_text =
     example_tiq_line
     @ ''<SamplingFrequency>1</SamplingFrequency><NumberSamples>2</NumberSamples>''
     @ ''<Scaling>1</Scaling></DataFile>''"

definition example_tiq_file :: binfile where
  "example_tiq_file =
     \<lparr>fsize = 160 + 16,
      content = (\<lambda>p. if p < 160 then of_nat (of_char (example_tiq_text ! p)) else 0)\<rparr>"

definition example_tiq_tree :: xml_elem where
  "example_tiq_tree =
     Elem (tek ''DataFile'') [(''offset'', ''160'')] (Some [CHR 0x0A])
       [Elem (tek ''SamplingFrequency'') [] (Some ''1'') [],
        Elem (tek ''NumberSamples'') [] (Some ''2'') [],
        Elem (tek ''Scaling'') [] (Some ''1'') []]"

definition example_tiq_int :: "string \<Rightarrow> int option" where
  "example_tiq_int v =
     (if v = ''160'' then Some 160 else if v = ''2'' then Some 2 else None)"

text \<open>What \<open>open(filename).readline()\<close> and \<open>et.fromstring\<close> return on this file.
  The file holds ASCII bytes only and starts with the 57 bytes of the first line, so the
  text layer returns that line; the first 160 bytes are the text of the header, which
  parses to the tree. Both stand for the library on this file only.\<close>

definition example_tiq_readline :: "binfile \<Rightarrow> py_error + string" where
  "example_tiq_readline f =
     and_then (decode_utf8 (read_at f 0 (fsize f)))
       (\<lambda>t. if take 57 t = example_tiq_line then Inr example_tiq_line
             else Inl UnicodeDecodeError)"

definition example_tiq_fromstring :: "byte list \<Rightarrow> py_error + xml_elem" where
  "example_tiq_fromstring ba =
     and_then (decode_utf8 ba)
       (\<lambda>t. if t = example_tiq_text then Inr example_tiq_tree else Inl ParseError)"

section \<open>Properties of the TDMS reader\<close>

subsection \<open>Helper facts\<close>

lemma int_truediv_nonneg: "0 \<le> a \<Longrightarrow> 0 < b \<Longrightarrow> int_truediv a b = a div b"
  by (cases "a = 0") (simp_all add: int_truediv_def)

lemma tdms_addressing_fields:
  assumes "0 < spr" "0 \<le> lfr" "0 \<le> nfr" "1 \<le> sfr"
  shows "tdms_addressing spr nfr lfr sfr =
     \<lparr>total_n_bytes = nfr * lfr, start_n_bytes = (sfr - 1) * lfr,
      start_record = (sfr - 1) * lfr div spr + 1,
      starting_sample_within_start_record = (sfr - 1) * lfr mod spr,
      n_records = ((sfr - 1) * lfr mod spr + nfr * lfr) div spr + 1\<rparr>"
proof -
  have a: "0 \<le> (sfr - 1) * lfr" using assms by simp
  have b: "0 \<le> (sfr - 1) * lfr mod spr + nfr * lfr" using assms by simp
  show ?thesis
    by (simp add: tdms_addressing_def Let_def int_truediv_nonneg [OF a assms(1)]
        int_truediv_nonneg [OF b assms(1)])
qed

lemma py_slice_window:
  assumes "0 \<le> a" "0 \<le> t" "nat (a + t) \<le> length xs"
  shows "py_slice xs a (a + t) = take (nat t) (drop (nat a) xs)"
proof -
  have "slice_index (length xs) a = nat a" using assms by (simp add: slice_index_def)
  moreover have "slice_index (length xs) (a + t) = nat (a + t)"
    using assms by (simp add: slice_index_def)
  moreover have "nat (a + t) - nat a = nat t" using assms by simp
  ultimately show ?thesis by (simp add: py_slice_def)
qed

lemma py_slice_from_nonneg:
  "0 \<le> a \<Longrightarrow> nat a \<le> length xs \<Longrightarrow> py_slice_from xs a = drop (nat a) xs"
  by (simp add: py_slice_from_def slice_index_def)

lemma read_tdms_noop:
  assumes "tdms_nSamplesPerRecord s \<noteq> 0"
    and "start_record (tdms_addressing (tdms_nSamplesPerRecord s) nfr lfr sfr)
         + n_records (tdms_addressing (tdms_nSamplesPerRecord s) nfr lfr sfr)
         > tdms_nRecordsPerFile s"
  shows "read_tdms segments s nfr lfr sfr = Inr (s\<lparr>lframes := lfr, nframes := nfr\<rparr>)"
  using assms by (simp add: read_tdms_def Let_def)

lemma read_tdms_pass:
  assumes "tdms_nSamplesPerRecord s \<noteq> 0"
    and "start_record (tdms_addressing (tdms_nSamplesPerRecord s) nfr lfr sfr)
         + n_records (tdms_addressing (tdms_nSamplesPerRecord s) nfr lfr sfr)
         \<le> tdms_nRecordsPerFile s"
  shows "read_tdms segments s nfr lfr sfr =
     (let w = tdms_addressing (tdms_nSamplesPerRecord s) nfr lfr sfr;
          absolute_size = tdms_first_rec_size s
             + (start_record w + n_records w - 2) * tdms_other_rec_size s
      in case tdms_samples (tdms_nSamplesPerRecord s) w
             (if absolute_size \<le> 0 then \<lparr>raw_I = None, raw_Q = None, raw_gain = None\<rparr>
              else segments (start_record w) absolute_size) of
           Inl e \<Rightarrow> Inl e
         | Inr (d, g) \<Rightarrow> Inr (s\<lparr>lframes := lfr, nframes := nfr, data_array := Some d, scale := g\<rparr>))"
  using assms by (simp add: read_tdms_def Let_def)

lemma tdms_stop_offset_pos:
  assumes "0 < spr" and "0 < L" and "0 < N" and "1 \<le> S"
    and "w = tdms_addressing spr N L S"
    and "0 < first_size" and "0 \<le> other_size"
  shows "0 < first_size + (start_record w + n_records w - 2) * other_size"
proof -
  have f: "w = \<lparr>total_n_bytes = N * L, start_n_bytes = (S - 1) * L,
      start_record = (S - 1) * L div spr + 1,
      starting_sample_within_start_record = (S - 1) * L mod spr,
      n_records = ((S - 1) * L mod spr + N * L) div spr + 1\<rparr>"
    using tdms_addressing_fields [of spr L N S] assms by simp
  have a: "0 \<le> (S - 1) * L div spr"
    using assms by (simp add: pos_imp_zdiv_nonneg_iff)
  have b: "0 \<le> ((S - 1) * L mod spr + N * L) div spr"
    using assms by (simp add: pos_imp_zdiv_nonneg_iff)
  have "0 \<le> start_record w + n_records w - 2" using a b by (simp add: f)
  then have "0 \<le> (start_record w + n_records w - 2) * other_size"
    using assms(7) by simp
  then show ?thesis using assms(6) by linarith
qed

lemma broadcast_to_same: "length xs = n \<Longrightarrow> broadcast_to n xs = Inr xs"
  by (simp add: broadcast_to_def)

lemma tdms_samples_window:
  assumes raw: "raw_I raw = Some ii" "raw_Q raw = Some qq" "raw_gain raw = Some (g # gs)"
    and w: "0 \<le> starting_sample_within_start_record w" "0 \<le> total_n_bytes w" "0 \<le> spr"
    and len: "(if start_record w > 1 then nat spr else 0)
                + nat (starting_sample_within_start_record w + total_n_bytes w) \<le> length ii"
             "(if start_record w > 1 then nat spr else 0)
                + nat (starting_sample_within_start_record w + total_n_bytes w) \<le> length qq"
  shows "tdms_samples spr w raw =
     Inr (map (\<lambda>(i, q). Complex (of_int i) (of_int q) * of_real g)
            (zip (take (nat (total_n_bytes w)) (drop (nat (starting_sample_within_start_record w))
                    (if start_record w > 1 then drop (nat spr) ii else ii)))
                 (take (nat (total_n_bytes w)) (drop (nat (starting_sample_within_start_record w))
                    (if start_record w > 1 then drop (nat spr) qq else qq)))), g)"
proof -
  let ?off = "starting_sample_within_start_record w"
  let ?tot = "total_n_bytes w"
  define ii1 where "ii1 = (if start_record w > 1 then drop (nat spr) ii else ii)"
  define qq1 where "qq1 = (if start_record w > 1 then drop (nat spr) qq else qq)"
  have f1: "(if start_record w > 1 then py_slice_from ii spr else ii) = ii1"
    using w len(1) unfolding ii1_def
    by (cases "1 < start_record w") (simp_all add: py_slice_from_nonneg)
  have f2: "(if start_record w > 1 then py_slice_from qq spr else qq) = qq1"
    using w len(2) unfolding qq1_def
    by (cases "1 < start_record w") (simp_all add: py_slice_from_nonneg)
  have l1: "nat (?off + ?tot) \<le> length ii1" using len(1) unfolding ii1_def by (cases "1 < start_record w") simp_all
  have l2: "nat (?off + ?tot) \<le> length qq1" using len(2) unfolding qq1_def by (cases "1 < start_record w") simp_all
  have s1: "py_slice ii1 ?off (?off + ?tot) = take (nat ?tot) (drop (nat ?off) ii1)"
    by (rule py_slice_window [OF w(1) w(2) l1])
  have s2: "py_slice qq1 ?off (?off + ?tot) = take (nat ?tot) (drop (nat ?off) qq1)"
    by (rule py_slice_window [OF w(1) w(2) l2])
  have n1: "length (take (nat ?tot) (drop (nat ?off) ii1)) = nat ?tot"
    using l1 w by (simp add: nat_add_distrib)
  have n2: "length (take (nat ?tot) (drop (nat ?off) qq1)) = nat ?tot"
    using l2 w by (simp add: nat_add_distrib)
  have "tdms_samples spr w raw =
     Inr (map (\<lambda>(i, q). Complex (of_int i) (of_int q) * of_real g)
            (zip (take (nat ?tot) (drop (nat ?off) ii1)) (take (nat ?tot) (drop (nat ?off) qq1))), g)"
    using w(2)
    by (simp add: tdms_samples_def lookup_key_def raw Let_def f1 f2 s1 s2
        broadcast_to_same [OF n1] broadcast_to_same [OF n2])
  then show ?thesis by (simp only: ii1_def qq1_def)
qed


lemma read_tdms_data:
  assumes spr: "0 < tdms_nSamplesPerRecord s"
    and req: "0 < L" "0 < N" "1 \<le> S"
    and w: "w = tdms_addressing (tdms_nSamplesPerRecord s) N L S"
    and guard: "start_record w + n_records w \<le> tdms_nRecordsPerFile s"
    and sizes: "0 < tdms_first_rec_size s" "0 \<le> tdms_other_rec_size s"
    and raw: "segments (start_record w)
                (tdms_first_rec_size s + (start_record w + n_records w - 2) * tdms_other_rec_size s)
              = raw"
      "raw_I raw = Some ii" "raw_Q raw = Some qq" "raw_gain raw = Some (g # gs)"
    and len: "(if start_record w > 1 then nat (tdms_nSamplesPerRecord s) else 0)
                + nat ((S - 1) * L mod tdms_nSamplesPerRecord s + N * L) \<le> length ii"
      "(if start_record w > 1 then nat (tdms_nSamplesPerRecord s) else 0)
                + nat ((S - 1) * L mod tdms_nSamplesPerRecord s + N * L) \<le> length qq"
  shows "read_tdms segments s N L S =
     Inr (s\<lparr>lframes := L, nframes := N,
            data_array := Some (map (\<lambda>(i, q). Complex (of_int i) (of_int q) * of_real g)
              (zip (take (nat (N * L)) (drop (nat ((S - 1) * L mod tdms_nSamplesPerRecord s))
                      (if start_record w > 1 then drop (nat (tdms_nSamplesPerRecord s)) ii else ii)))
                   (take (nat (N * L)) (drop (nat ((S - 1) * L mod tdms_nSamplesPerRecord s))
                      (if start_record w > 1 then drop (nat (tdms_nSamplesPerRecord s)) qq else qq))))),
            scale := g\<rparr>)"
proof -
  let ?spr = "tdms_nSamplesPerRecord s"
  have f: "w = \<lparr>total_n_bytes = N * L, start_n_bytes = (S - 1) * L,
      start_record = (S - 1) * L div ?spr + 1,
      starting_sample_within_start_record = (S - 1) * L mod ?spr,
      n_records = ((S - 1) * L mod ?spr + N * L) div ?spr + 1\<rparr>"
    using tdms_addressing_fields [of ?spr L N S] spr req w by simp
  have off: "starting_sample_within_start_record w = (S - 1) * L mod ?spr"
    and tot: "total_n_bytes w = N * L" using f by simp_all
  have o0: "0 \<le> starting_sample_within_start_record w" using off spr by simp
  have t0: "0 \<le> total_n_bytes w" using tot req by simp
  have s0: "0 \<le> ?spr" using spr by simp
  have l1: "(if start_record w > 1 then nat ?spr else 0)
      + nat (starting_sample_within_start_record w + total_n_bytes w) \<le> length ii"
    using len(1) off tot by simp
  have l2: "(if start_record w > 1 then nat ?spr else 0)
      + nat (starting_sample_within_start_record w + total_n_bytes w) \<le> length qq"
    using len(2) off tot by simp
  have nz: "?spr \<noteq> 0" using spr by simp
  have guard': "start_record (tdms_addressing ?spr N L S) + n_records (tdms_addressing ?spr N L S)
      \<le> tdms_nRecordsPerFile s" using guard w by simp
  have stop: "0 < tdms_first_rec_size s
      + (start_record w + n_records w - 2) * tdms_other_rec_size s"
    by (rule tdms_stop_offset_pos [OF spr req w sizes])
  show ?thesis
    unfolding read_tdms_pass [OF nz guard', of segments]
    using tdms_samples_window [OF raw(2,3,4) o0 t0 s0 l1 l2] raw(1) w off tot stop
    by (simp add: Let_def)
qed

subsection \<open>The window arithmetic\<close>

text \<open>
  Claim C7 says that for 1024 samples a record the request \<open>(L, N, S) = (1024, 2, 2)\<close>
  gives start unit 1 and 2 units needed. The code gives 3 records to read, so the claim is
  false as stated.
\<close>

theorem window_1024_2_2_units_needed_not_2:
  "\<not> (start_record (tdms_addressing 1024 2 1024 2) - 1 = 1
      \<and> n_records (tdms_addressing 1024 2 1024 2) = 2)"
  by (simp add: tdms_addressing_def int_truediv_def)

text \<open>
  Claim C7, amended: for 1024 samples a record the request \<open>(L, N, S) = (1024, 2, 2)\<close>
  gives start unit 1 (the code's 1-based \<open>start_record\<close> is 2), offset 0 inside that
  record, and 3 units needed: \<open>int((0 + 2048) / 1024) + 1\<close>.
\<close>

theorem window_1024_2_2:
  "start_record (tdms_addressing 1024 2 1024 2) - 1 = 1
   \<and> starting_sample_within_start_record (tdms_addressing 1024 2 1024 2) = 0
   \<and> n_records (tdms_addressing 1024 2 1024 2) = 3"
  by (simp add: tdms_addressing_def int_truediv_def)

text \<open>
  Claim C2 says that the read fails with a range error exactly when start unit plus units
  needed exceeds the units of the file. With 1024 samples a record and 2 records in the
  file, the request \<open>(L, N, S) = (1024, 2, 2)\<close> has start unit 1 and 3 units needed, and
  the read raises nothing: it returns.
\<close>

theorem out_of_range_is_not_an_error:
  "(start_record (tdms_addressing 1024 2 1024 2) - 1) + n_records (tdms_addressing 1024 2 1024 2) > 2
   \<and> \<not> (\<exists>e. read_tdms (\<lambda>r a. \<lparr>raw_I = None, raw_Q = None, raw_gain = None\<rparr>)
              (init_iqdata\<lparr>tdms_nSamplesPerRecord := 1024, tdms_nRecordsPerFile := 2\<rparr>)
              2 1024 2 = Inl e)"
  by (simp add: read_tdms_def tdms_addressing_def int_truediv_def Let_def init_iqdata_def)

text \<open>
  Claim C2, amended: for a request with \<open>L > 0\<close>, \<open>N > 0\<close>, \<open>S \<ge> 1\<close>, a positive
  number of samples a unit, and the samples a unit and the end \<open>(S - 1 + N) * L\<close> of the
  window both below \<open>2^53\<close>, the arithmetic computes the total \<open>N * L\<close>, the start
  offset \<open>(S - 1) * L\<close>, the start unit (start offset div samples per unit, kept 1-based
  in \<open>start_record\<close>), the offset inside the unit (start offset mod samples per unit)
  and the units needed, \<open>((offset + total) div samples per unit) + 1\<close>. Whenever start
  unit plus units needed exceeds the units of the file, the read returns without data and
  raises nothing; whenever it is below the units of the file, the read goes on to slice
  the samples the segment loop has parsed.
\<close>

theorem tdms_window_addressing:
  assumes "0 < spu" and "0 < L" and "0 < N" and "1 \<le> S"
    and "spu < 2 ^ 53" and "(S - 1 + N) * L < 2 ^ 53"
    and "tdms_nSamplesPerRecord s = spu" and "tdms_nRecordsPerFile s = upf"
    and "w = tdms_addressing spu N L S"
    and "absolute_size = tdms_first_rec_size s
           + (start_record w + n_records w - 2) * tdms_other_rec_size s"
  shows "total_n_bytes w = N * L
     \<and> start_n_bytes w = (S - 1) * L
     \<and> start_record w - 1 = start_n_bytes w div spu
     \<and> starting_sample_within_start_record w = start_n_bytes w mod spu
     \<and> n_records w = (starting_sample_within_start_record w + total_n_bytes w) div spu + 1
     \<and> ((start_record w - 1) + n_records w > upf \<longrightarrow>
          read_tdms segments s N L S = Inr (s\<lparr>lframes := L, nframes := N\<rparr>))
     \<and> ((start_record w - 1) + n_records w < upf \<longrightarrow>
          read_tdms segments s N L S =
            (case tdms_samples spu w
                    (if absolute_size \<le> 0 then \<lparr>raw_I = None, raw_Q = None, raw_gain = None\<rparr>
                     else segments (start_record w) absolute_size) of
               Inl e \<Rightarrow> Inl e
             | Inr (d, g) \<Rightarrow>
                 Inr (s\<lparr>lframes := L, nframes := N, data_array := Some d, scale := g\<rparr>)))"
proof -
  have w: "w = \<lparr>total_n_bytes = N * L, start_n_bytes = (S - 1) * L,
      start_record = (S - 1) * L div spu + 1,
      starting_sample_within_start_record = (S - 1) * L mod spu,
      n_records = ((S - 1) * L mod spu + N * L) div spu + 1\<rparr>"
    using assms(1,2,3,4,9) tdms_addressing_fields [of spu L N S] by simp
  have nz: "tdms_nSamplesPerRecord s \<noteq> 0" using assms(1,7) by simp
  have hi: "(start_record w - 1) + n_records w > upf \<longrightarrow>
          read_tdms segments s N L S = Inr (s\<lparr>lframes := L, nframes := N\<rparr>)"
    using read_tdms_noop [OF nz, of N L S segments] assms(7,8,9) by simp
  have lo: "(start_record w - 1) + n_records w < upf \<longrightarrow>
          read_tdms segments s N L S =
            (case tdms_samples spu w
                    (if absolute_size \<le> 0 then \<lparr>raw_I = None, raw_Q = None, raw_gain = None\<rparr>
                     else segments (start_record w) absolute_size) of
               Inl e \<Rightarrow> Inl e
             | Inr (d, g) \<Rightarrow>
                 Inr (s\<lparr>lframes := L, nframes := N, data_array := Some d, scale := g\<rparr>))"
    using read_tdms_pass [OF nz, of N L S segments] assms(7,8,9,10) by (simp add: Let_def)
  from w hi lo show ?thesis by simp
qed

text \<open>Records of 4 samples, the first 100 bytes long and the others 60: the window
  \<open>(L, N, S) = (2, 2, 4)\<close> has start unit 1 and 2 units needed, and the loop stops at
  offset 220. In a file of 2 records the read returns without data; in a file of 5 records
  it slices the samples 6 to 9 out of the records 1, 2 and 3 that the loop has parsed.\<close>

theorem tdms_window_addressing_witness:
  "total_n_bytes (tdms_addressing 4 2 2 4) = 2 * 2
   \<and> start_n_bytes (tdms_addressing 4 2 2 4) = 6
   \<and> start_record (tdms_addressing 4 2 2 4) - 1 = 1
   \<and> starting_sample_within_start_record (tdms_addressing 4 2 2 4) = 2
   \<and> n_records (tdms_addressing 4 2 2 4) = 2
   \<and> read_tdms (\<lambda>r a. if r = 2 \<and> a = 220
                 then \<lparr>raw_I = Some [10, 11, 12, 13, 20, 21, 22, 23, 30, 31, 32, 33],
                       raw_Q = Some [50, 51, 52, 53, 60, 61, 62, 63, 70, 71, 72, 73],
                       raw_gain = Some [2]\<rparr>
                 else \<lparr>raw_I = None, raw_Q = None, raw_gain = None\<rparr>)
        (init_iqdata\<lparr>tdms_nSamplesPerRecord := 4, tdms_nRecordsPerFile := 2,
                      tdms_first_rec_size := 100, tdms_other_rec_size := 60\<rparr>) 2 2 4
      = Inr ((init_iqdata\<lparr>tdms_nSamplesPerRecord := 4, tdms_nRecordsPerFile := 2,
                      tdms_first_rec_size := 100, tdms_other_rec_size := 60\<rparr>)\<lparr>lframes := 2, nframes := 2\<rparr>)
   \<and> read_tdms (\<lambda>r a. if r = 2 \<and> a = 220
                 then \<lparr>raw_I = Some [10, 11, 12, 13, 20, 21, 22, 23, 30, 31, 32, 33],
                       raw_Q = Some [50, 51, 52, 53, 60, 61, 62, 63, 70, 71, 72, 73],
                       raw_gain = Some [2]\<rparr>
                 else \<lparr>raw_I = None, raw_Q = None, raw_gain = None\<rparr>)
        (init_iqdata\<lparr>tdms_nSamplesPerRecord := 4, tdms_nRecordsPerFile := 5,
                      tdms_first_rec_size := 100, tdms_other_rec_size := 60\<rparr>) 2 2 4
      = Inr ((init_iqdata\<lparr>tdms_nSamplesPerRecord := 4, tdms_nRecordsPerFile := 5,
                      tdms_first_rec_size := 100, tdms_other_rec_size := 60\<rparr>)\<lparr>lframes := 2, nframes := 2,
               data_array := Some (map (\<lambda>(i, q). Complex (of_int i) (of_int q) * of_real 2)
                                 [(22, 62), (23, 63), (30, 70), (31, 71)]),
               scale := 2\<rparr>)"
proof -
  let ?seg = "(\<lambda>r a. if r = 2 \<and> a = 220
                 then \<lparr>raw_I = Some [10, 11, 12, 13, 20, 21, 22, 23, 30, 31, 32, 33],
                       raw_Q = Some [50, 51, 52, 53, 60, 61, 62, 63, 70, 71, 72, 73],
                       raw_gain = Some [2]\<rparr>
                 else \<lparr>raw_I = None, raw_Q = None, raw_gain = None\<rparr>)"
  let ?w = "tdms_addressing 4 2 2 4"
  have w: "?w = \<lparr>total_n_bytes = 4, start_n_bytes = 6, start_record = 2,
      starting_sample_within_start_record = 2, n_records = 2\<rparr>"
    by (simp add: tdms_addressing_def int_truediv_def)
  have smp: "tdms_samples 4 \<lparr>total_n_bytes = 4, start_n_bytes = 6, start_record = 2,
      starting_sample_within_start_record = 2, n_records = 2\<rparr>
       \<lparr>raw_I = Some [10, 11, 12, 13, 20, 21, 22, 23, 30, 31, 32, 33],
        raw_Q = Some [50, 51, 52, 53, 60, 61, 62, 63, 70, 71, 72, 73],
        raw_gain = Some [2]\<rparr>
     = Inr (map (\<lambda>(i, q). Complex (of_int i) (of_int q) * of_real 2)
              [(22, 62), (23, 63), (30, 70), (31, 71)], 2)"
    by (simp add: tdms_samples_def lookup_key_def py_slice_from_def py_slice_def
        slice_index_def broadcast_to_def Let_def)
  have A: "total_n_bytes ?w = 2 * 2 \<and> start_n_bytes ?w = 6 \<and> start_record ?w - 1 = 1
      \<and> starting_sample_within_start_record ?w = 2 \<and> n_records ?w = 2
      \<and> read_tdms ?seg (init_iqdata\<lparr>tdms_nSamplesPerRecord := 4, tdms_nRecordsPerFile := 2,
                      tdms_first_rec_size := 100, tdms_other_rec_size := 60\<rparr>) 2 2 4 = Inr ((init_iqdata\<lparr>tdms_nSamplesPerRecord := 4, tdms_nRecordsPerFile := 2,
                      tdms_first_rec_size := 100, tdms_other_rec_size := 60\<rparr>)\<lparr>lframes := 2, nframes := 2\<rparr>)"
    using tdms_window_addressing [where spu = 4 and L = 2 and N = 2 and S = 4 and upf = 2
        and s = "(init_iqdata\<lparr>tdms_nSamplesPerRecord := 4, tdms_nRecordsPerFile := 2,
                      tdms_first_rec_size := 100, tdms_other_rec_size := 60\<rparr>)" and w = ?w and segments = ?seg and absolute_size = 220]
    by (simp add: w)
  have B: "read_tdms ?seg (init_iqdata\<lparr>tdms_nSamplesPerRecord := 4, tdms_nRecordsPerFile := 5,
                      tdms_first_rec_size := 100, tdms_other_rec_size := 60\<rparr>) 2 2 4
      = Inr ((init_iqdata\<lparr>tdms_nSamplesPerRecord := 4, tdms_nRecordsPerFile := 5,
                      tdms_first_rec_size := 100, tdms_other_rec_size := 60\<rparr>)\<lparr>lframes := 2, nframes := 2,
               data_array := Some (map (\<lambda>(i, q). Complex (of_int i) (of_int q) * of_real 2)
                                 [(22, 62), (23, 63), (30, 70), (31, 71)]),
               scale := 2\<rparr>)"
    using tdms_window_addressing [where spu = 4 and L = 2 and N = 2 and S = 4 and upf = 5
        and s = "(init_iqdata\<lparr>tdms_nSamplesPerRecord := 4, tdms_nRecordsPerFile := 5,
                      tdms_first_rec_size := 100, tdms_other_rec_size := 60\<rparr>)" and w = ?w and segments = ?seg and absolute_size = 220]
    by (simp add: w smp)
  from A B show ?thesis by simp
qed


text \<open>
  At the boundary, where start unit plus units needed is the number of units of the file,
  the read returns without data as well: the check compares the 1-based
  \<open>start_record + n_records\<close> with the number of records, although the last record
  the loop reads is \<open>start_record + n_records - 1\<close>. With 1024 samples a record, a file
  of 2 records is never read past its first record, and a file of 1 record is never read
  at all.
\<close>

lemma read_tdms_boundary_window:
  "(start_record (tdms_addressing 1024 1 1024 1) - 1) + n_records (tdms_addressing 1024 1 1024 1) = 2
   \<and> read_tdms segments
        (init_iqdata\<lparr>tdms_nSamplesPerRecord := 1024, tdms_nRecordsPerFile := 2\<rparr>) 1 1024 1
      = Inr (init_iqdata\<lparr>tdms_nSamplesPerRecord := 1024, tdms_nRecordsPerFile := 2,
                         lframes := 1024, nframes := 1\<rparr>)"
  by (simp add: read_tdms_def tdms_addressing_def int_truediv_def Let_def init_iqdata_def)

lemma read_tdms_single_record_file:
  assumes "0 < L" and "0 < N" and "1 \<le> S" and "(S - 1 + N) * L < 2 ^ 53"
  shows "read_tdms segments
        (init_iqdata\<lparr>tdms_nSamplesPerRecord := 1024, tdms_nRecordsPerFile := 1\<rparr>) N L S
      = Inr (init_iqdata\<lparr>tdms_nSamplesPerRecord := 1024, tdms_nRecordsPerFile := 1,
                         lframes := L, nframes := N\<rparr>)"
proof -
  let ?s = "init_iqdata\<lparr>tdms_nSamplesPerRecord := 1024, tdms_nRecordsPerFile := 1\<rparr>"
  have f: "tdms_addressing 1024 N L S =
     \<lparr>total_n_bytes = N * L, start_n_bytes = (S - 1) * L,
      start_record = (S - 1) * L div 1024 + 1,
      starting_sample_within_start_record = (S - 1) * L mod 1024,
      n_records = ((S - 1) * L mod 1024 + N * L) div 1024 + 1\<rparr>"
    using tdms_addressing_fields [of 1024 L N S] assms(1,2,3) by simp
  have a: "0 \<le> (S - 1) * L div 1024"
    using assms(1,2,3) by (simp add: pos_imp_zdiv_nonneg_iff)
  have b: "0 \<le> ((S - 1) * L mod 1024 + N * L) div 1024"
    using assms(1,2,3) by (simp add: pos_imp_zdiv_nonneg_iff)
  have "start_record (tdms_addressing (tdms_nSamplesPerRecord ?s) N L S)
      + n_records (tdms_addressing (tdms_nSamplesPerRecord ?s) N L S) > tdms_nRecordsPerFile ?s"
    using a b by (simp add: f)
  then show ?thesis
    using read_tdms_noop [of ?s N L S segments] by simp
qed

subsection \<open>The window that exceeds the file\<close>




subsection \<open>Trimming and slicing\<close>




section \<open>Properties of the TCAP reader\<close>

subsection \<open>The timestamp register\<close>

text \<open>
  Claim C9 says that every nibble is validated as a decimal digit and that a value
  outside 0 to 9 is flagged. In the register below the low nibble of byte 7, the units
  of the seconds, is 10: the decoder raises nothing and returns 2 seconds.
\<close>

theorem tfp_nibble_10_accepted:
  "\<exists>t. parse_tcap_tfp [0, 0, 0, 0, 0, 0, 0, 0x0A, 0, 0, 0, 0] = Inr t \<and> seconds t = 2"
  by (simp add: parse_tcap_tfp_def)

text \<open>
  Claim C9, amended: the decoder takes every digit from the register by a shift and a
  mask and validates nothing: for every register of 12 bytes it returns a timestamp, and
  no nibble value is flagged.
\<close>

theorem tfp_never_flags:
  "length ba = 12 \<Longrightarrow> \<exists>t. parse_tcap_tfp ba = Inr t"
  by (simp add: parse_tcap_tfp_def Let_def)

theorem tfp_never_flags_witness:
  "\<exists>t. parse_tcap_tfp [0xFF, 0xFF, 0xFF, 0xFF, 0xFF, 0xFF, 0xFF, 0xFF, 0xFF, 0xFF, 0xFF, 0xFF] = Inr t"
  using tfp_never_flags [of "[0xFF, 0xFF, 0xFF, 0xFF, 0xFF, 0xFF, 0xFF, 0xFF, 0xFF, 0xFF, 0xFF, 0xFF]"]
  by simp

text \<open>
  Claim C10 says that the decoder returns the exact decimal value whenever every digit
  nibble is within 0 to 7. In the register below byte 4 is \<open>0x12\<close>: the tens of the
  days are 1 and the units are 2, every other digit is 0, and the value of the days is
  12. The mask \<open>0x17\<close> keeps bit 4 of the byte, the lowest bit of the tens, in the
  units: the decoder returns 28 days.
\<close>

theorem tfp_days_12_decoded_as_28:
  "parse_tcap_tfp [0, 0, 0, 0, 0x12, 0, 0, 0, 0, 0, 0, 0] =
     Inr \<lparr>days = 28, hours = 0, minutes = 0, seconds = 0, ts_epoch = 60 * (60 * (24 * 28))\<rparr>"
  by (simp add: parse_tcap_tfp_def)

subsection \<open>The copy loop\<close>

text \<open>Past the end of the file the loop copies nothing more.\<close>

lemma tcap_copy_at_end: "fsize f \<le> pos \<Longrightarrow> tcap_copy f n pos ba = ba"
proof (induction n arbitrary: pos)
  case 0
  then show ?case by simp
next
  case (Suc n)
  then show ?case by (simp add: Let_def)
qed

lemma payload_pos_eq: "payload_pos k = (k div 131072) * 131160 + 88 + k mod 131072"
  by (simp add: payload_pos_def BLOCK_SIZE_def BLOCK_HEADER_SIZE_def BLOCK_DATA_SIZE_def)

lemma payload_pos_Suc:
  "(if (payload_pos k + 1) mod 131160 = 0 then payload_pos k + 1 + 88 else payload_pos k + 1)
     = payload_pos (Suc k)"
proof -
  define q where "q = k div 131072"
  define r where "r = k mod 131072"
  have k: "k = q * 131072 + r" and r: "r < 131072" by (simp_all add: q_def r_def)
  have p: "payload_pos k = q * 131160 + 88 + r" by (simp add: payload_pos_eq q_def r_def)
  show ?thesis
  proof (cases "r + 1 < 131072")
    case True
    have d: "Suc k div 131072 = q" using k True by simp
    have m: "Suc k mod 131072 = r + 1" using k True by simp
    have "(payload_pos k + 1) mod 131160 = 89 + r"
    proof -
      have "payload_pos k + 1 = (89 + r) + q * 131160" using p by simp
      moreover have "((89 + r) + q * 131160) mod 131160 = (89 + r) mod 131160"
        by (rule mod_mult_self1)
      ultimately have "(payload_pos k + 1) mod 131160 = (89 + r) mod 131160"
        by (simp only:)
      then show ?thesis using True by simp
    qed
    then show ?thesis using p d m by (simp add: payload_pos_eq)
  next
    case False
    then have r1: "r = 131071" using r by simp
    have k1: "Suc k = (q + 1) * 131072" using k r1 by simp
    have d: "Suc k div 131072 = q + 1" unfolding k1 by simp
    have m: "Suc k mod 131072 = 0" unfolding k1 by simp
    have "payload_pos k + 1 = (q + 1) * 131160" using p r1 by simp
    then show ?thesis using d m by (simp add: payload_pos_eq)
  qed
qed

lemma payload_pos_in_file:
  assumes "k < 15625 * 131072"
  shows "payload_pos k < 15625 * 131160"
proof -
  have "k div 131072 \<le> 15624" using assms by simp
  then have "(k div 131072) * 131160 \<le> 15624 * 131160" by simp
  moreover have "k mod 131072 < 131072" by simp
  ultimately show ?thesis unfolding payload_pos_eq by linarith
qed

lemma tcap_copy_payload:
  assumes "fsize f = 15625 * 131160"
    and "k + n \<le> 15625 * 131072"
    and "(if pos mod 131160 = 0 then pos + 88 else pos) = payload_pos k"
  shows "tcap_copy f n pos ba = ba @ payload_range f k n"
  using assms(2,3)
proof (induction n arbitrary: pos k ba)
  case 0
  then show ?case by (simp add: payload_range_def)
next
  case (Suc n)
  have kf: "payload_pos k < fsize f"
    using payload_pos_in_file [of k] Suc.prems(1) assms(1) by simp
  have nx: "(if (payload_pos k + 1) mod 131160 = 0 then payload_pos k + 1 + 88 else payload_pos k + 1)
     = payload_pos (Suc k)" by (rule payload_pos_Suc)
  have step: "tcap_copy f (Suc n) pos ba = tcap_copy f n (payload_pos k + 1) (ba @ [content f (payload_pos k)])"
    using Suc.prems(2) kf by (simp add: Let_def)
  have "tcap_copy f n (payload_pos k + 1) (ba @ [content f (payload_pos k)])
      = (ba @ [content f (payload_pos k)]) @ payload_range f (Suc k) n"
    using Suc.IH [of "Suc k" "payload_pos k + 1"] Suc.prems(1) nx by simp
  moreover have "payload_range f k (Suc n) = content f (payload_pos k) # payload_range f (Suc k) n"
  proof -
    have "[k ..< k + Suc n] = k # [Suc k ..< Suc k + n]" by (simp add: upt_rec [of k])
    then show ?thesis by (simp add: payload_range_def)
  qed
  ultimately show ?case using step by simp
qed

lemma tcap_copy_mod4:
  assumes "4 dvd fsize f"
  shows "pos \<le> fsize f \<Longrightarrow> 4 dvd (pos + 3 * length ba) \<Longrightarrow>
     length (tcap_copy f n pos ba) = length ba + n \<or> 4 dvd length (tcap_copy f n pos ba)"
proof (induction n arbitrary: pos ba)
  case 0
  then show ?case by simp
next
  case (Suc n)
  define pos1 where "pos1 = (if pos mod 131160 = 0 then pos + 88 else pos)"
  have d1: "4 dvd (pos1 + 3 * length ba)"
  proof (cases "pos mod 131160 = 0")
    case True
    have "pos1 + 3 * length ba = (pos + 3 * length ba) + 4 * 22" using True by (simp add: pos1_def)
    then show ?thesis using Suc.prems(2) by (simp only: dvd_add dvd_triv_left)
  next
    case False
    then show ?thesis using Suc.prems(2) by (simp add: pos1_def)
  qed
  show ?case
  proof (cases "pos1 < fsize f")
    case True
    have "tcap_copy f (Suc n) pos ba = tcap_copy f n (pos1 + 1) (ba @ [content f pos1])"
      using True by (simp add: pos1_def Let_def)
    moreover have "4 dvd (pos1 + 1 + 3 * length (ba @ [content f pos1]))"
    proof -
      have "pos1 + 1 + 3 * length (ba @ [content f pos1]) = (pos1 + 3 * length ba) + 4 * 1" by simp
      then show ?thesis using d1 by (simp only: dvd_add dvd_triv_left)
    qed
    moreover have "pos1 + 1 \<le> fsize f" using True by simp
    ultimately show ?thesis using Suc.IH [of "pos1 + 1" "ba @ [content f pos1]"] by auto
  next
    case False
    have e: "tcap_copy f (Suc n) pos ba = ba"
      using False tcap_copy_at_end [of f pos1 n ba] by (simp add: pos1_def Let_def)
    have "4 dvd pos1"
    proof (cases "pos mod 131160 = 0")
      case True
      then have "131160 dvd pos" by (simp add: mod_eq_0_iff_dvd)
      moreover have "(4::nat) dvd 131160" by simp
      ultimately have "4 dvd pos" by (rule dvd_trans [rotated])
      then show ?thesis using True by (simp add: pos1_def)
    next
      case F: False
      then have "pos1 = pos" by (simp add: pos1_def)
      then have "pos = fsize f" using False Suc.prems(1) by simp
      then show ?thesis using assms \<open>pos1 = pos\<close> by simp
    qed
    then have "4 dvd length ba" using d1 by presburger
    then show ?thesis using e by simp
  qed
qed


lemma parse_tcap_tfp_returns: "12 \<le> length ba \<Longrightarrow> \<exists>t. parse_tcap_tfp ba = Inr t"
  by (simp add: parse_tcap_tfp_def Let_def)

lemma length_read_at: "length (read_at f pos n) = min (pos + n) (fsize f) - pos"
  by (simp add: read_at_def)

lemma block_size_value: "15625 * BLOCK_SIZE = 15625 * 131160" "BLOCK_HEADER_SIZE = 88"
  by (simp_all add: BLOCK_SIZE_def BLOCK_HEADER_SIZE_def BLOCK_DATA_SIZE_def)

lemma tcap_copy_length_mod4:
  assumes "fsize f = 15625 * 131160" and "4 dvd pos" and "4 dvd n"
  shows "length (tcap_copy f n pos []) mod 4 = 0"
proof (cases "pos \<le> fsize f")
  case True
  have "(4::nat) dvd 15625 * 131160" by simp
  then have f4: "4 dvd fsize f" using assms(1) by simp
  have "length (tcap_copy f n pos []) = length ([]::byte list) + n
      \<or> 4 dvd length (tcap_copy f n pos [])"
    using tcap_copy_mod4 [OF f4 True, of "[]" n] assms(2) by simp
  then show ?thesis using assms(3) by auto
next
  case False
  then show ?thesis using tcap_copy_at_end [of f pos n "[]"] by simp
qed


lemma read_tcap_match:
  assumes "fsize f = 15625 * 131160" and "N \<noteq> 0" and "0 \<le> 88 + 4 * (S - 1) * L"
  shows "read_tcap f s N L S =
       Inr (s\<lparr>lframes := L, nframes := N,
              date_time := LocalTimeOfEpoch (ts_epoch (projr (parse_tcap_tfp (read_at f 0 12)))),
              tcap_pio := Some (read_at f 12 12),
              tcap_scalers := Some (read_at f 24 64),
              fs := 312500, center := 160000, scale := 1 / 16,
              nframes_tot := int_truediv (15625 * 32768) N,
              number_samples := 15625 * 32768, span_iq := 312500,
              data_array := Some (tcap_decode (1 / 16)
                (tcap_copy f (nat (4 * N * L)) (nat (88 + 4 * (S - 1) * L)) []))\<rparr>)"
proof -
  have "12 \<le> length (read_at f 0 12)" using assms(1) by (simp add: length_read_at)
  then obtain t where t: "parse_tcap_tfp (read_at f 0 12) = Inr t"
    using parse_tcap_tfp_returns by blast
  define x where "x = (S - 1) * L"
  have e88: "88 + 4 * (S - 1) * L = 4 * (22 + x)" by (simp add: x_def)
  have "0 \<le> 4 * (22 + x)" using assms(3) e88 by simp
  then have "0 \<le> 22 + x" by simp
  with e88 have "nat (88 + 4 * (S - 1) * L) = 4 * nat (22 + x)"
    by (simp add: nat_mult_distrib)
  then have p4: "4 dvd nat (88 + 4 * (S - 1) * L)" by simp
  define y where "y = N * L"
  have ey: "4 * N * L = 4 * y" by (simp add: y_def)
  have n4: "4 dvd nat (4 * N * L)"
  proof (cases "0 \<le> y")
    case True
    then have "nat (4 * y) = 4 * nat y" by (simp add: nat_mult_distrib)
    then show ?thesis unfolding ey by simp
  next
    case False
    then have "nat (4 * y) = 0" by simp
    then show ?thesis unfolding ey by simp
  qed
  have m: "length (tcap_copy f (nat (4 * N * L)) (nat (88 + 4 * (S - 1) * L)) []) mod 4 = 0"
    by (rule tcap_copy_length_mod4 [OF assms(1) p4 n4])
  show ?thesis
    using assms t m by (simp add: read_tcap_def block_size_value Let_def)
qed

lemma tcap_copy_numeral:
  "tcap_copy f (numeral k) pos ba =
     (let pos1 = (if pos mod 131160 = 0 then pos + 88 else pos)
      in if pos1 < fsize f then tcap_copy f (pred_numeral k) (pos1 + 1) (ba @ [content f pos1])
         else tcap_copy f (pred_numeral k) pos1 ba)"
proof -
  have "numeral k = Suc (pred_numeral k)" by (rule numeral_eq_Suc)
  then show ?thesis by (simp only: tcap_copy.simps)
qed

lemma first_block_start:
  assumes "k \<le> 131072"
  shows "(if (88 + k) mod 131160 = 0 then 88 + k + 88 else 88 + k) = payload_pos k"
proof (cases "k = 131072")
  case True
  then show ?thesis by (simp add: payload_pos_eq)
next
  case False
  then have "k < 131072" using assms by simp
  then show ?thesis by (simp add: payload_pos_eq)
qed

text \<open>A window that starts in the payload of the first block (or right at its end) is
  copied exactly: the bytes are those of the payload range, one header skipped at every
  block boundary the copy crosses.\<close>

lemma read_tcap_first_block:
  assumes "fsize f = 15625 * 131160" and "0 < N" and "0 < L" and "1 \<le> S"
    and "4 * (S - 1) * L \<le> 131072"
    and "4 * (S - 1 + N) * L \<le> 15625 * 131072"
  shows "\<exists>s'. read_tcap f s N L S = Inr s' \<and>
     data_array s' = Some (tcap_decode (1 / 16)
       (payload_range f (nat (4 * (S - 1) * L)) (nat (4 * N * L))))"
proof -
  define k where "k = nat (4 * (S - 1) * L)"
  define n where "n = nat (4 * N * L)"
  have s0: "0 \<le> 4 * (S - 1) * L" using assms(3,4) by simp
  have n0: "0 \<le> 4 * N * L" using assms(2,3) by simp
  have pos: "nat (88 + 4 * (S - 1) * L) = 88 + k" using s0 by (simp add: k_def nat_add_distrib)
  have k1: "k \<le> 131072" using assms(5) s0 by (simp add: k_def)
  have "4 * (S - 1 + N) * L = 4 * (S - 1) * L + 4 * N * L" by (simp add: algebra_simps)
  then have "int (k + n) \<le> 15625 * 131072" using assms(6) s0 n0 by (simp add: k_def n_def)
  then have kn: "k + n \<le> 15625 * 131072" by linarith
  have c: "tcap_copy f n (88 + k) [] = [] @ payload_range f k n"
    by (rule tcap_copy_payload [OF assms(1) kn first_block_start [OF k1]])
  have a3: "0 \<le> 88 + 4 * (S - 1) * L" using s0 by simp
  have a2: "N \<noteq> 0" using assms(2) by simp
  show ?thesis
    unfolding read_tcap_match [OF assms(1) a2 a3] pos
    using c by (simp add: k_def n_def)
qed

subsection \<open>The size of the file\<close>




subsection \<open>A window past the first block\<close>

text \<open>
  Claim C3 says that the bytes copied are the \<open>4 * N * L\<close> payload bytes from the
  payload offset \<open>4 * (S - 1) * L\<close> on. The file below has \<open>0xFF\<close> in every block
  header and \<open>0\<close> in the payload. For \<open>(L, N, S) = (1, 1, 32770)\<close> the payload offset
  is 131076, in the second block; the reader seeks to \<open>88 + 131076\<close>, which lies in the
  header of the second block, and returns header bytes as the sample \<open>(-1 - j) / 16\<close>,
  where the payload range holds the sample 0.
\<close>

theorem tcap_window_past_first_block:
  "\<exists>s'. read_tcap \<lparr>fsize = 15625 * 131160,
                     content = (\<lambda>p. if p mod 131160 < 88 then 0xFF else 0)\<rparr>
           init_iqdata 1 1 32770 = Inr s'
     \<and> data_array s' = Some [Complex (- 1 / 16) (- 1 / 16)]
     \<and> tcap_decode (1 / 16)
          (payload_range \<lparr>fsize = 15625 * 131160,
                          content = (\<lambda>p. if p mod 131160 < 88 then 0xFF else 0)\<rparr>
             (4 * (32770 - 1) * 1) (4 * 1 * 1)) = [Complex 0 0]"
proof -
  let ?f = "\<lparr>fsize = 15625 * 131160, content = (\<lambda>p. if p mod 131160 < 88 then 0xFF else 0)\<rparr>"
  have cp: "tcap_copy ?f (nat (4 * 1 * 1)) (nat (88 + 4 * (32770 - 1) * 1)) [] = [0xFF, 0xFF, 0xFF, 0xFF]"
    by (simp add: tcap_copy_numeral Let_def)
  have sz: "fsize ?f = 15625 * 131160" by simp
  have rd: "read_tcap ?f init_iqdata 1 1 32770 =
       Inr (init_iqdata\<lparr>lframes := 1, nframes := 1,
              date_time := LocalTimeOfEpoch (ts_epoch (projr (parse_tcap_tfp (read_at ?f 0 12)))),
              tcap_pio := Some (read_at ?f 12 12),
              tcap_scalers := Some (read_at ?f 24 64),
              fs := 312500, center := 160000, scale := 1 / 16,
              nframes_tot := int_truediv (15625 * 32768) 1,
              number_samples := 15625 * 32768, span_iq := 312500,
              data_array := Some (tcap_decode (1 / 16) [0xFF, 0xFF, 0xFF, 0xFF])\<rparr>)"
    using read_tcap_match [OF sz, of 1 32770 1 init_iqdata] unfolding cp by simp
  have d1: "tcap_decode (1 / 16) [0xFF, 0xFF, 0xFF, 0xFF] = [Complex (- 1 / 16) (- 1 / 16)]"
    by (simp add: be_i16_def Let_def)
  have pr: "payload_range ?f (4 * (32770 - 1) * 1) (4 * 1 * 1) = [0, 0, 0, 0]"
    by (simp add: payload_range_def payload_pos_eq upt_rec [of 131076] upt_rec [of 131077]
        upt_rec [of 131078] upt_rec [of 131079])
  have d2: "tcap_decode (1 / 16) [0, 0, 0, 0] = [Complex 0 0]"
    by (simp add: be_i16_def Let_def)
  show ?thesis unfolding rd pr d2 using d1 by simp
qed

section \<open>Properties of the IQT and the TIQ reader\<close>

subsection \<open>Helper facts\<close>

lemma and_then_Inr: "and_then r k = Inr y \<longleftrightarrow> (\<exists>v. r = Inr v \<and> k v = Inr y)"
  by (cases r) (simp_all add: and_then_def)

lemma length_iqt_frame: "length (iqt_frame ba base) = 1024"
  by (simp add: iqt_frame_def)

lemma length_concat_frames:
  "length (concat (map (\<lambda>i. iqt_frame ba (i * m)) [0 ..< n])) = 1024 * n"
  by (induction n) (simp_all add: length_iqt_frame)

lemma length_iqt_data:
  assumes "length ba div frame_itemsize \<le> n"
  shows "length (iqt_data sc n ba) = 1024 * n"
  using assms by (simp add: iqt_data_def Let_def length_concat_frames)

lemma py_read_Inr_le: "0 \<le> n \<Longrightarrow> py_read f pos n = Inr ba \<Longrightarrow> length ba \<le> nat n"
  by (auto simp add: py_read_def read_at_def)

lemma py_read_inside:
  "0 \<le> n \<Longrightarrow> pos + nat n \<le> fsize f \<Longrightarrow>
     \<exists>ba. py_read f pos n = Inr ba \<and> length ba = nat n"
  by (simp add: py_read_def read_at_def)

lemma frames_read_le:
  assumes "0 \<le> N" and "py_read f pos (N * int frame_itemsize) = Inr ba"
  shows "length ba div frame_itemsize \<le> nat N"
proof -
  have "length ba \<le> nat (N * int frame_itemsize)"
    using assms by (intro py_read_Inr_le [of _ f pos]) simp_all
  also have "nat (N * int frame_itemsize) = nat N * frame_itemsize"
    using assms(1) by (simp add: nat_mult_distrib)
  finally have "length ba div frame_itemsize
      \<le> (nat N * frame_itemsize) div frame_itemsize" by (rule div_le_mono)
  then show ?thesis by (simp add: frame_itemsize_def)
qed

lemma read_iqt_Inr:
  assumes "read_iqt py_int py_float f s N L S = Inr s'"
  shows "\<exists>hd_lines data_offset g m l ba.
      iqt_text_header py_int f = Inr (hd_lines, data_offset)
    \<and> header_field py_float (text_header_parser hd_lines) ''GainOffset'' = Inr g
    \<and> header_field py_float (text_header_parser hd_lines) ''MaxInputLevel'' = Inr m
    \<and> header_field py_float (text_header_parser hd_lines) ''LevelOffset'' = Inr l
    \<and> scale s' = sqrt (10 powr ((g + m + l) / 10) / 20 * 2)
    \<and> 0 \<le> N
    \<and> py_read f (nat (data_offset + (S - 1) * int frame_itemsize)) (N * int frame_itemsize)
        = Inr ba
    \<and> data_array s' = Some (iqt_data (scale s') (nat N) ba)"
  using assms
  by (auto simp add: read_iqt_def and_then_Inr Let_def split: if_splits)

lemma example_header:
  "iqt_text_header example_int example_iqt_file =
     Inr ([''FFTPoints=1024'', ''MaxInputLevel=0'', ''LevelOffset=0'', ''FrameLength=1'',
           ''GainOffset=10'', ''CenterFrequency=0'', ''Span=0'', ''ValidFrames=1'',
           ''DateTime=x''], 126)"
  by code_simp

lemma example_dic:
  "text_header_parser example_iqt_lines ''FFTPoints'' = Some ''1024''"
  "text_header_parser example_iqt_lines ''MaxInputLevel'' = Some ''0''"
  "text_header_parser example_iqt_lines ''LevelOffset'' = Some ''0''"
  "text_header_parser example_iqt_lines ''FrameLength'' = Some ''1''"
  "text_header_parser example_iqt_lines ''GainOffset'' = Some ''10''"
  "text_header_parser example_iqt_lines ''CenterFrequency'' = Some ''0''"
  "text_header_parser example_iqt_lines ''Span'' = Some ''0''"
  "text_header_parser example_iqt_lines ''ValidFrames'' = Some ''1''"
  "text_header_parser example_iqt_lines ''DateTime'' = Some ''x''"
  by code_simp+

lemma example_conv:
  "example_int ''1024'' = Some 1024" "example_int ''1'' = Some 1"
  "example_float ''0'' = Some 0" "example_float ''1'' = Some 1" "example_float ''10'' = Some 10"
  by (simp_all add: example_int_def example_float_def)

lemma example_read:
  "read_iqt example_int example_float example_iqt_file init_iqdata 1 512 1 =
     Inr (init_iqdata\<lparr>lframes := 512, nframes := 1,
            header := Some (HeaderLines example_iqt_lines),
            center := 0, span_iq := 0, nframes_tot := 1, date_time := DateText ''x'',
            number_samples := 1024, fs := 1024,
            scale := sqrt (10 powr ((10 + 0 + 0) / 10) / 20 * 2),
            data_array := Some (iqt_data (sqrt (10 powr ((10 + 0 + 0) / 10) / 20 * 2)) 1
               (read_at example_iqt_file 126 4120))\<rparr>)"
proof -
  have h: "iqt_text_header example_int example_iqt_file = Inr (example_iqt_lines, 126)"
    using example_header by (simp add: example_iqt_lines_def)
  have rd: "py_read example_iqt_file 126 4120 = Inr (read_at example_iqt_file 126 4120)"
    by (simp add: py_read_def)
  have len: "length (read_at example_iqt_file 126 4120) = 4120"
    by (simp add: read_at_def example_iqt_file_def)
  show ?thesis
    by (simp add: read_iqt_def h and_then_def header_field_def lookup_key_def example_dic
        example_conv Let_def frame_itemsize_def rd len)
qed

lemma length_tiq_decode: "length (tiq_decode sc ba) = length ba div 8"
  by (induction sc ba rule: tiq_decode.induct) simp_all

lemma read_tiq_window:
  assumes "0 < L" and "0 < N" and "1 \<le> S"
    and "tiq_header readline py_int py_float fromstring f (s\<lparr>lframes := L, nframes := N\<rparr>)
           = Inr (data_offset, hdr, sh)"
    and "fs sh \<noteq> 0" and "0 \<le> data_offset"
    and "data_offset + 8 * (S - 1 + N) * L \<le> int (fsize f)"
  shows "\<exists>s' d. read_tiq readline py_int py_float fromstring f s N L S = Inr s'
           \<and> data_array s' = Some d \<and> int (length d) = N * L"
proof -
  define st where "st = 8 * (S - 1) * L"
  define tot where "tot = 8 * N * L"
  have s0: "0 \<le> st" using assms(1,3) by (simp add: st_def)
  have t0: "0 \<le> tot" using assms(1,2) by (simp add: tot_def)
  have sum: "8 * (S - 1 + N) * L = st + tot" by (simp add: st_def tot_def algebra_simps)
  have inside: "nat (data_offset + st) + nat tot \<le> fsize f"
    using assms(6,7) s0 t0 unfolding sum by linarith
  from py_read_inside [OF t0 inside] obtain ba where
    rd: "py_read f (nat (data_offset + st)) tot = Inr ba" and
    len: "length ba = nat tot" by blast
  have "nat tot = 8 * nat (N * L)"
    using assms(1,2) by (simp add: tot_def nat_mult_distrib mult.assoc)
  then have m: "length ba mod 8 = 0" and d: "int (length ba div 8) = N * L"
    using len assms(1,2) by simp_all
  have pos: "\<not> data_offset + st < 0" using assms(6) s0 by linarith
  have lz: "L \<noteq> 0" using assms(1) by simp
  have "read_tiq readline py_int py_float fromstring f s N L S =
      (if fs sh = 0 \<or> L = 0 then Inl ZeroDivisionError
       else if data_offset + st < 0 then Inl OSError
       else and_then (py_read f (nat (data_offset + st)) tot)
              (\<lambda>ba. if length ba mod 8 \<noteq> 0 then Inl ValueError
                    else Inr (sh\<lparr>nframes_tot := int_truediv (number_samples sh) L,
                                 header := Some (HeaderBytes hdr),
                                 data_array := Some (tiq_decode (scale sh) ba)\<rparr>)))"
    unfolding read_tiq_def Let_def assms(4) st_def tot_def
    by (simp add: and_then_def split: sum.splits)
  then have e: "read_tiq readline py_int py_float fromstring f s N L S =
      Inr (sh\<lparr>nframes_tot := int_truediv (number_samples sh) L,
              header := Some (HeaderBytes hdr),
              data_array := Some (tiq_decode (scale sh) ba)\<rparr>)"
    using assms(5) lz pos m by (simp add: rd and_then_def)
  show ?thesis unfolding e using d by (simp add: length_tiq_decode)
qed

lemma example_tiq_first_line:
  "example_tiq_readline example_tiq_file = Inr example_tiq_line"
  by code_simp

lemma example_tiq_parts:
  "split_on (CHR 0x22) example_tiq_line
     = [''<DataFile offset='', ''160'', '' xmlns='', ''http://www.tektronix.com'', [CHR 0x3E, CHR 0x0A]]"
  by code_simp

lemma example_tiq_parsed:
  "example_tiq_fromstring (read_at example_tiq_file 0 160) = Inr example_tiq_tree"
  by code_simp

lemma example_tiq_iter:
  "iter_tag (tek ''AcquisitionBandwidth'') example_tiq_tree = []"
  "iter_tag (tek ''Frequency'') example_tiq_tree = []"
  "iter_tag (tek ''DateTime'') example_tiq_tree = []"
  "iter_tag (tek ''NumberSamples'') example_tiq_tree
     = [Elem (tek ''NumberSamples'') [] (Some ''2'') []]"
  "iter_tag ''NumericParameter'' example_tiq_tree = []"
  "iter_tag (tek ''RFAttenuation'') example_tiq_tree = []"
  "iter_tag (tek ''SamplingFrequency'') example_tiq_tree
     = [Elem (tek ''SamplingFrequency'') [] (Some ''1'') []]"
  "iter_tag (tek ''Scaling'') example_tiq_tree = [Elem (tek ''Scaling'') [] (Some ''1'') []]"
  by code_simp+

lemma example_tiq_header:
  "tiq_header example_tiq_readline example_tiq_int example_float example_tiq_fromstring
     example_tiq_file (init_iqdata\<lparr>lframes := 2, nframes := 1\<rparr>)
   = Inr (160, read_at example_tiq_file 0 160,
          init_iqdata\<lparr>lframes := 2, nframes := 1, number_samples := 2, fs := 1, scale := 1\<rparr>)"
proof -
  have rd: "py_read example_tiq_file 0 160 = Inr (read_at example_tiq_file 0 160)"
    by (simp add: py_read_def)
  show ?thesis
    by (simp add: tiq_header_def example_tiq_first_line example_tiq_parts and_then_def
        example_tiq_int_def rd example_tiq_parsed example_tiq_iter example_float_def
        init_iqdata_def Let_def)
qed

subsection \<open>The number of samples a read returns\<close>

text \<open>
  Claim C1 says that every read of a valid window returns exactly \<open>N * L\<close> samples.
  The example file declares 1024 samples; the window \<open>(L, N, S) = (512, 1, 1)\<close> is
  valid, and \<open>read_iqt\<close> returns 1024 samples, not 512: it reads whole frames of 1024
  samples, whatever the frame length of the request.
\<close>

theorem iqt_returns_1024_per_frame:
  "\<exists>s' d. read_iqt example_int example_float example_iqt_file init_iqdata 1 512 1 = Inr s'
      \<and> (1 - 1 + 1) * 512 \<le> number_samples s'
      \<and> data_array s' = Some d \<and> int (length d) = 1024 \<and> int (length d) \<noteq> 1 * 512"
proof -
  have "py_read example_iqt_file 126 (1 * int frame_itemsize)
      = Inr (read_at example_iqt_file 126 4120)"
    by (simp add: py_read_def frame_itemsize_def)
  then have "length (read_at example_iqt_file 126 4120) div frame_itemsize \<le> nat 1"
    by (rule frames_read_le [rotated]) simp
  then have "length (iqt_data (sqrt (10 powr ((10 + 0 + 0) / 10) / 20 * 2)) 1
               (read_at example_iqt_file 126 4120)) = 1024 * 1"
    by (intro length_iqt_data) simp
  then show ?thesis unfolding example_read by simp
qed

text \<open>
  Claim C1, amended: for a window with \<open>L > 0\<close>, \<open>N > 0\<close>, \<open>S \<ge> 1\<close> and an end
  \<open>(S - 1 + N) * L\<close> below \<open>2^53\<close>: \<open>read_tiq\<close> returns exactly \<open>N * L\<close> samples
  when the header of the file has been read and parsed without an error, the sampling
  frequency it leaves is not zero, the number of samples it leaves is below \<open>2^53\<close> in
  magnitude, and the window lies in the payload of the file; \<open>read_iqt\<close>, whenever it
  returns, returns exactly \<open>1024 * N\<close> samples, which is \<open>N * L\<close> only for
  \<open>L = 1024\<close>; \<open>read_tdms\<close> returns exactly \<open>N * L\<close> samples when the samples a
  record are below \<open>2^53\<close>, the record sizes are positive, the window passes the
  reader's check against the records of the file and the segment loop has parsed the
  samples the slice needs.
\<close>

theorem read_window_lengths:
  "(0 < L \<and> 0 < N \<and> 1 \<le> S \<and> (S - 1 + N) * L < 2 ^ 53
      \<and> tiq_header readline py_int py_float fromstring f (s\<lparr>lframes := L, nframes := N\<rparr>)
          = Inr (data_offset, hdr, sh)
      \<and> fs sh \<noteq> 0 \<and> \<bar>number_samples sh\<bar> < 2 ^ 53 \<and> 0 \<le> data_offset
      \<and> data_offset + 8 * (S - 1 + N) * L \<le> int (fsize f) \<longrightarrow>
      (\<exists>s' d. read_tiq readline py_int py_float fromstring f s N L S = Inr s'
          \<and> data_array s' = Some d \<and> int (length d) = N * L))
   \<and> (\<forall>s'. read_iqt py_int py_float f s N L S = Inr s' \<longrightarrow>
          (\<exists>d. data_array s' = Some d \<and> int (length d) = 1024 * N))
   \<and> (0 < L \<and> 0 < N \<and> 1 \<le> S \<and> (S - 1 + N) * L < 2 ^ 53
      \<and> 0 < tdms_nSamplesPerRecord s \<and> tdms_nSamplesPerRecord s < 2 ^ 53
      \<and> 0 < tdms_first_rec_size s \<and> 0 < tdms_other_rec_size s
      \<and> w = tdms_addressing (tdms_nSamplesPerRecord s) N L S
      \<and> start_record w + n_records w \<le> tdms_nRecordsPerFile s
      \<and> segments (start_record w)
           (tdms_first_rec_size s + (start_record w + n_records w - 2) * tdms_other_rec_size s)
         = \<lparr>raw_I = Some ii, raw_Q = Some qq, raw_gain = Some (g # gs)\<rparr>
      \<and> (if start_record w > 1 then nat (tdms_nSamplesPerRecord s) else 0)
           + nat ((S - 1) * L mod tdms_nSamplesPerRecord s + N * L) \<le> length ii
      \<and> (if start_record w > 1 then nat (tdms_nSamplesPerRecord s) else 0)
           + nat ((S - 1) * L mod tdms_nSamplesPerRecord s + N * L) \<le> length qq \<longrightarrow>
      (\<exists>s' d. read_tdms segments s N L S = Inr s'
          \<and> data_array s' = Some d \<and> int (length d) = N * L))"
proof (intro conjI impI allI)
  assume a: "0 < L \<and> 0 < N \<and> 1 \<le> S \<and> (S - 1 + N) * L < 2 ^ 53
      \<and> tiq_header readline py_int py_float fromstring f (s\<lparr>lframes := L, nframes := N\<rparr>)
          = Inr (data_offset, hdr, sh)
      \<and> fs sh \<noteq> 0 \<and> \<bar>number_samples sh\<bar> < 2 ^ 53 \<and> 0 \<le> data_offset
      \<and> data_offset + 8 * (S - 1 + N) * L \<le> int (fsize f)"
  from a have pL: "0 < L" and pN: "0 < N" and pS: "1 \<le> S"
    and ph: "tiq_header readline py_int py_float fromstring f (s\<lparr>lframes := L, nframes := N\<rparr>)
          = Inr (data_offset, hdr, sh)"
    and pf: "fs sh \<noteq> 0" and po: "0 \<le> data_offset"
    and pw: "data_offset + 8 * (S - 1 + N) * L \<le> int (fsize f)"
    by blast+
  show "\<exists>s' d. read_tiq readline py_int py_float fromstring f s N L S = Inr s'
          \<and> data_array s' = Some d \<and> int (length d) = N * L"
    by (rule read_tiq_window [OF pL pN pS ph pf po pw])
next
  fix s'
  assume r: "read_iqt py_int py_float f s N L S = Inr s'"
  from read_iqt_Inr [OF r] obtain data_offset ba where
    n: "0 \<le> N" and
    rd: "py_read f (nat (data_offset + (S - 1) * int frame_itemsize)) (N * int frame_itemsize)
        = Inr ba" and
    d: "data_array s' = Some (iqt_data (scale s') (nat N) ba)"
    by blast
  have "length (iqt_data (scale s') (nat N) ba) = 1024 * nat N"
    by (rule length_iqt_data [OF frames_read_le [OF n rd]])
  then show "\<exists>d. data_array s' = Some d \<and> int (length d) = 1024 * N"
    using d n by simp
next
  let ?spr = "tdms_nSamplesPerRecord s"
  let ?raw = "\<lparr>raw_I = Some ii, raw_Q = Some qq, raw_gain = Some (g # gs)\<rparr>"
  assume a: "0 < L \<and> 0 < N \<and> 1 \<le> S \<and> (S - 1 + N) * L < 2 ^ 53
      \<and> 0 < ?spr \<and> ?spr < 2 ^ 53
      \<and> 0 < tdms_first_rec_size s \<and> 0 < tdms_other_rec_size s
      \<and> w = tdms_addressing ?spr N L S
      \<and> start_record w + n_records w \<le> tdms_nRecordsPerFile s
      \<and> segments (start_record w)
           (tdms_first_rec_size s + (start_record w + n_records w - 2) * tdms_other_rec_size s)
         = ?raw
      \<and> (if start_record w > 1 then nat ?spr else 0)
           + nat ((S - 1) * L mod ?spr + N * L) \<le> length ii
      \<and> (if start_record w > 1 then nat ?spr else 0)
           + nat ((S - 1) * L mod ?spr + N * L) \<le> length qq"
  from a have pL: "0 < L" and pN: "0 < N" and pS: "1 \<le> S" and pspr: "0 < ?spr"
    and pf: "0 < tdms_first_rec_size s" and po: "0 < tdms_other_rec_size s"
    and pw: "w = tdms_addressing ?spr N L S"
    and pg: "start_record w + n_records w \<le> tdms_nRecordsPerFile s"
    and pseg: "segments (start_record w)
           (tdms_first_rec_size s + (start_record w + n_records w - 2) * tdms_other_rec_size s)
         = ?raw"
    and pi: "(if start_record w > 1 then nat ?spr else 0)
           + nat ((S - 1) * L mod ?spr + N * L) \<le> length ii"
    and pq: "(if start_record w > 1 then nat ?spr else 0)
           + nat ((S - 1) * L mod ?spr + N * L) \<le> length qq"
    by blast+
  have po': "0 \<le> tdms_other_rec_size s" using po by simp
  define ii1 where "ii1 = (if start_record w > 1 then drop (nat ?spr) ii else ii)"
  define qq1 where "qq1 = (if start_record w > 1 then drop (nat ?spr) qq else qq)"
  define iv where "iv = take (nat (N * L)) (drop (nat ((S - 1) * L mod ?spr)) ii1)"
  define qv where "qv = take (nat (N * L)) (drop (nat ((S - 1) * L mod ?spr)) qq1)"
  have r: "raw_I ?raw = Some ii" "raw_Q ?raw = Some qq" "raw_gain ?raw = Some (g # gs)"
    by simp_all
  have off: "0 \<le> (S - 1) * L mod ?spr" using pspr by simp
  have split: "nat ((S - 1) * L mod ?spr + N * L) = nat ((S - 1) * L mod ?spr) + nat (N * L)"
    using off pL pN by (simp add: nat_add_distrib)
  have "nat ((S - 1) * L mod ?spr + N * L) \<le> length ii1"
    using pi unfolding ii1_def by (cases "1 < start_record w") simp_all
  then have "nat (N * L) \<le> length ii1 - nat ((S - 1) * L mod ?spr)"
    unfolding split by arith
  then have li: "length iv = nat (N * L)" by (simp add: iv_def min_absorb2)
  have "nat ((S - 1) * L mod ?spr + N * L) \<le> length qq1"
    using pq unfolding qq1_def by (cases "1 < start_record w") simp_all
  then have "nat (N * L) \<le> length qq1 - nat ((S - 1) * L mod ?spr)"
    unfolding split by arith
  then have lq: "length qv = nat (N * L)" by (simp add: qv_def min_absorb2)
  have e: "read_tdms segments s N L S =
     Inr (s\<lparr>lframes := L, nframes := N,
            data_array := Some (map (\<lambda>(i, q). Complex (of_int i) (of_int q) * of_real g)
              (zip iv qv)),
            scale := g\<rparr>)"
    using read_tdms_data [where segments = segments and raw = ?raw and s = s and w = w,
        OF pspr pL pN pS pw pg pf po' pseg r pi pq]
    by (simp add: iv_def qv_def ii1_def qq1_def)
  have nl: "int (nat (N * L)) = N * L" using pL pN by simp
  show "\<exists>s' d. read_tdms segments s N L S = Inr s'
          \<and> data_array s' = Some d \<and> int (length d) = N * L"
    unfolding e using li lq nl by simp
qed

text \<open>The example TIQ file holds two samples after a header of 160 bytes, and the window
  \<open>(L, N, S) = (2, 1, 1)\<close> is all of them. The example IQT file holds one frame. The
  TDMS file has records of 4 samples, the first 100 bytes long and the others 60; the
  window \<open>(L, N, S) = (2, 1, 1)\<close> lies in record 1, and the loop stops at offset 100,
  after record 1.\<close>

theorem read_window_lengths_witness:
  "(\<exists>s' d. read_tiq example_tiq_readline example_tiq_int example_float example_tiq_fromstring
             example_tiq_file init_iqdata 1 2 1 = Inr s'
        \<and> data_array s' = Some d \<and> int (length d) = 1 * 2)
   \<and> (\<exists>s' d. read_iqt example_int example_float example_iqt_file init_iqdata 1 512 1 = Inr s'
        \<and> data_array s' = Some d \<and> int (length d) = 1024 * 1)
   \<and> (\<exists>s' d. read_tdms
             (\<lambda>r a. if r = 1 \<and> a = 100
                     then \<lparr>raw_I = Some [10, 11, 12, 13], raw_Q = Some [50, 51, 52, 53],
                           raw_gain = Some [2]\<rparr>
                     else \<lparr>raw_I = None, raw_Q = None, raw_gain = None\<rparr>)
             (init_iqdata\<lparr>tdms_nSamplesPerRecord := 4, tdms_nRecordsPerFile := 5,
                           tdms_first_rec_size := 100, tdms_other_rec_size := 60\<rparr>) 1 2 1 = Inr s'
        \<and> data_array s' = Some d \<and> int (length d) = 1 * 2)"
proof -
  let ?seg = "\<lambda>(r::int) (a::int). if r = 1 \<and> a = 100
                     then \<lparr>raw_I = Some [10, 11, 12, 13], raw_Q = Some [50, 51, 52, 53],
                           raw_gain = Some [2::real]\<rparr>
                     else \<lparr>raw_I = None, raw_Q = None, raw_gain = None\<rparr>"
  let ?s = "init_iqdata\<lparr>tdms_nSamplesPerRecord := 4, tdms_nRecordsPerFile := 5,
                           tdms_first_rec_size := 100, tdms_other_rec_size := 60\<rparr>"
  have w: "tdms_addressing 4 1 2 1 = \<lparr>total_n_bytes = 2, start_n_bytes = 0, start_record = 1,
      starting_sample_within_start_record = 0, n_records = 1\<rparr>"
    by (simp add: tdms_addressing_def int_truediv_def)
  have fsz: "fsize example_tiq_file = 176" by (simp add: example_tiq_file_def)
  have A: "\<exists>s' d. read_tiq example_tiq_readline example_tiq_int example_float
             example_tiq_fromstring example_tiq_file init_iqdata 1 2 1 = Inr s'
        \<and> data_array s' = Some d \<and> int (length d) = 1 * 2"
    by (rule read_window_lengths [where L = 2 and N = 1 and S = 1 and f = example_tiq_file
          and readline = example_tiq_readline and py_int = example_tiq_int
          and py_float = example_float and fromstring = example_tiq_fromstring
          and data_offset = 160 and hdr = "read_at example_tiq_file 0 160"
          and sh = "init_iqdata\<lparr>lframes := 2, nframes := 1, number_samples := 2, fs := 1,
                                 scale := 1\<rparr>"
          and s = init_iqdata, THEN conjunct1, THEN mp])
       (simp add: example_tiq_header fsz)
  have B: "\<forall>s'. read_iqt example_int example_float example_iqt_file init_iqdata 1 512 1 = Inr s' \<longrightarrow>
          (\<exists>d. data_array s' = Some d \<and> int (length d) = 1024 * 1)"
    by (rule read_window_lengths [where N = 1 and L = 512 and S = 1 and f = example_iqt_file
          and py_int = example_int and py_float = example_float and s = init_iqdata,
          THEN conjunct2, THEN conjunct1])
  have B': "\<exists>s' d. read_iqt example_int example_float example_iqt_file init_iqdata 1 512 1 = Inr s'
        \<and> data_array s' = Some d \<and> int (length d) = 1024 * 1"
    using B example_read by blast
  have C: "\<exists>s' d. read_tdms ?seg ?s 1 2 1 = Inr s'
        \<and> data_array s' = Some d \<and> int (length d) = 1 * 2"
    by (rule read_window_lengths [where L = 2 and N = 1 and S = 1 and s = ?s
          and w = "tdms_addressing 4 1 2 1" and segments = ?seg
          and ii = "[10, 11, 12, 13]" and qq = "[50, 51, 52, 53]" and g = 2 and gs = "[]",
          THEN conjunct2, THEN conjunct2, THEN mp])
       (simp add: w)
  from A B' C show ?thesis by (intro conjI)
qed

subsection \<open>The scale factor\<close>

text \<open>
  Claim C8: whenever \<open>read_iqt\<close> returns, the header has been parsed, it declares the
  gain offset, the maximal input level and the level offset, and the scale factor is
  \<open>sqrt (10 powr ((gain_offset + max_input_level + level_offset) / 10) / 20 * 2)\<close>, in the
  real numbers that idealise the floating-point numbers of the code.
\<close>

theorem iqt_scale_factor:
  assumes "read_iqt py_int py_float f s N L S = Inr s'"
  shows "\<exists>hd_lines data_offset gain_offset max_input_level level_offset.
      iqt_text_header py_int f = Inr (hd_lines, data_offset)
    \<and> header_field py_float (text_header_parser hd_lines) ''GainOffset'' = Inr gain_offset
    \<and> header_field py_float (text_header_parser hd_lines) ''MaxInputLevel'' = Inr max_input_level
    \<and> header_field py_float (text_header_parser hd_lines) ''LevelOffset'' = Inr level_offset
    \<and> scale s' = sqrt (10 powr ((gain_offset + max_input_level + level_offset) / 10) / 20 * 2)"
  using read_iqt_Inr [OF assms] by blast

theorem iqt_scale_factor_witness:
  "\<exists>s'. read_iqt example_int example_float example_iqt_file init_iqdata 1 512 1 = Inr s'
     \<and> (\<exists>hd_lines data_offset gain_offset max_input_level level_offset.
          iqt_text_header example_int example_iqt_file = Inr (hd_lines, data_offset)
        \<and> header_field example_float (text_header_parser hd_lines) ''GainOffset'' = Inr gain_offset
        \<and> header_field example_float (text_header_parser hd_lines) ''MaxInputLevel'' = Inr max_input_level
        \<and> header_field example_float (text_header_parser hd_lines) ''LevelOffset'' = Inr level_offset
        \<and> scale s' = sqrt (10 powr ((gain_offset + max_input_level + level_offset) / 10) / 20 * 2))
     \<and> scale s' = 1"
proof -
  have "sqrt (10 powr ((10 + 0 + 0) / 10) / 20 * 2) = (1::real)" by simp
  then show ?thesis
    using iqt_scale_factor [OF example_read] example_read by simp
qed

end
